theory Spec2Isabelle
  imports Complex_Main "HOL-Library.AList"
begin

section \<open>CacheManager: TTL cache with LRU eviction\<close>

text \<open>
  The cache of the source is a JavaScript \<^verbatim>\<open>Map<string, CacheItem>\<close>. A JavaScript Map
  iterates in insertion order, \<^verbatim>\<open>Map.set\<close> on a present key replaces the value in place
  and on a new key appends, and \<^verbatim>\<open>Map.delete\<close> removes the key. The model is an
  association list with these three operations (\<open>map_of\<close>, \<open>AList.update\<close>,
  \<open>AList.delete\<close>). Times and TTLs are milliseconds, as integers. The field \<^verbatim>\<open>value\<close>
  of the source is called \<open>val\<close> here (\<open>value\<close> is a reserved word).
\<close>

record 'v cache_item =
  val :: 'v
  timestamp :: int
  ttl :: int
  accessCount :: nat
  lastAccessed :: int

record 'v cache_manager =
  cache :: "(string \<times> 'v cache_item) list"
  maxSize :: int
  defaultTTL :: int
  hits :: nat
  misses :: nat

record cache_stats =
  totalItems :: nat
  hitRate :: real
  missRate :: real
  totalHits :: nat
  totalMisses :: nat
  memoryUsage :: nat

text \<open>The constructor (the periodic cleanup timer it installs is \<open>cleanup\<close> below).\<close>

definition new_cache :: "int \<Rightarrow> int \<Rightarrow> 'v cache_manager" where
  "new_cache max_size default_ttl =
     \<lparr>cache = [], maxSize = max_size, defaultTTL = default_ttl, hits = 0, misses = 0\<rparr>"

text \<open>
  The loop of \<^verbatim>\<open>evictLRU\<close>: \<open>oldestKey\<close> and \<open>oldestTime\<close> are the two loop variables;
  an entry replaces them only when its \<open>lastAccessed\<close> is strictly smaller.
\<close>

fun lru_scan :: "(string \<times> 'v cache_item) list \<Rightarrow> string \<Rightarrow> int \<Rightarrow> string" where
  "lru_scan [] oldestKey oldestTime = oldestKey"
| "lru_scan ((key, item) # rest) oldestKey oldestTime =
     (if lastAccessed item < oldestTime
      then lru_scan rest key (lastAccessed item)
      else lru_scan rest oldestKey oldestTime)"

text \<open>
  \<^verbatim>\<open>evictLRU\<close>: \<open>oldestKey\<close> starts as the empty string and \<open>oldestTime\<close> as the
  clock reading \<open>now\<close>; the final \<^verbatim>\<open>if (oldestKey)\<close> deletes only for a non-empty key.
\<close>

definition evictLRU :: "int \<Rightarrow> 'v cache_manager \<Rightarrow> 'v cache_manager" where
  "evictLRU now m =
     (let oldestKey = lru_scan (cache m) [] now
      in if oldestKey \<noteq> [] then m\<lparr>cache := AList.delete oldestKey (cache m)\<rparr> else m)"

text \<open>
  \<^verbatim>\<open>set(key, value, ttl?)\<close>. \<open>now\<close> is the clock reading taken by \<^verbatim>\<open>set\<close> itself,
  \<open>now_evict\<close> the one taken by \<^verbatim>\<open>evictLRU\<close> when it runs. An absent or zero \<open>ttl\<close>
  is falsy, so \<^verbatim>\<open>ttl || this.defaultTTL\<close> takes the default.
\<close>

definition set_item ::
  "int \<Rightarrow> int \<Rightarrow> string \<Rightarrow> 'v \<Rightarrow> int option \<Rightarrow> 'v cache_manager \<Rightarrow> 'v cache_manager" where
  "set_item now now_evict key v ttl_arg m =
     (let itemTTL = (case ttl_arg of
                       None \<Rightarrow> defaultTTL m
                     | Some t \<Rightarrow> if t = 0 then defaultTTL m else t);
          m1 = (if int (length (cache m)) \<ge> maxSize m then evictLRU now_evict m else m)
      in m1\<lparr>cache := AList.update key
                \<lparr>val = v, timestamp = now, ttl = itemTTL, accessCount = 0, lastAccessed = now\<rparr>
                (cache m1)\<rparr>)"

text \<open>\<^verbatim>\<open>get(key)\<close>: \<open>None\<close> is the \<^verbatim>\<open>null\<close> of the source.\<close>

definition get :: "int \<Rightarrow> string \<Rightarrow> 'v cache_manager \<Rightarrow> 'v option \<times> 'v cache_manager" where
  "get now key m =
     (case map_of (cache m) key of
        None \<Rightarrow> (None, m\<lparr>misses := misses m + 1\<rparr>)
      | Some item \<Rightarrow>
          if now - timestamp item > ttl item
          then (None, m\<lparr>cache := AList.delete key (cache m), misses := misses m + 1\<rparr>)
          else (Some (val item),
                m\<lparr>cache := AList.update key
                        (item\<lparr>accessCount := accessCount item + 1, lastAccessed := now\<rparr>)
                        (cache m),
                  hits := hits m + 1\<rparr>))"

definition has :: "int \<Rightarrow> string \<Rightarrow> 'v cache_manager \<Rightarrow> bool \<times> 'v cache_manager" where
  "has now key m =
     (case map_of (cache m) key of
        None \<Rightarrow> (False, m)
      | Some item \<Rightarrow>
          if now - timestamp item > ttl item
          then (False, m\<lparr>cache := AList.delete key (cache m)\<rparr>)
          else (True, m))"

definition delete_key :: "string \<Rightarrow> 'v cache_manager \<Rightarrow> bool \<times> 'v cache_manager" where
  "delete_key key m =
     (key \<in> fst ` set (cache m), m\<lparr>cache := AList.delete key (cache m)\<rparr>)"

definition clear :: "'v cache_manager \<Rightarrow> 'v cache_manager" where
  "clear m = m\<lparr>cache := [], hits := 0, misses := 0\<rparr>"

definition cleanup :: "int \<Rightarrow> 'v cache_manager \<Rightarrow> 'v cache_manager" where
  "cleanup now m =
     (let keysToDelete = map fst (filter (\<lambda>(key, item). now - timestamp item > ttl item) (cache m))
      in m\<lparr>cache := fold AList.delete keysToDelete (cache m)\<rparr>)"

text \<open>
  \<^verbatim>\<open>getStats()\<close>. \<open>json_length v\<close> stands for \<^verbatim>\<open>JSON.stringify(v).length\<close>, a function
  of the platform taken as a parameter; the length of a key is its number of code units.
\<close>

definition getStats :: "('v \<Rightarrow> nat) \<Rightarrow> 'v cache_manager \<Rightarrow> cache_stats" where
  "getStats json_length m =
     (let totalRequests = hits m + misses m;
          hit_rate = (if totalRequests > 0 then real (hits m) / real totalRequests * 100 else 0);
          miss_rate = (if totalRequests > 0 then real (misses m) / real totalRequests * 100 else 0);
          memory = fold (\<lambda>(key, item) mem. mem + length key * 2 + json_length (val item) * 2 + 64)
                        (cache m) 0
      in \<lparr>totalItems = length (cache m), hitRate = hit_rate, missRate = miss_rate,
          totalHits = hits m, totalMisses = misses m, memoryUsage = memory\<rparr>)"

text \<open>
  \<^verbatim>\<open>Array.prototype.slice(0, limit)\<close>: a negative \<open>limit\<close> counts from the end.
\<close>

definition slice0 :: "int \<Rightarrow> 'a list \<Rightarrow> 'a list" where
  "slice0 limit xs =
     (if limit < 0 then take (nat (int (length xs) + limit)) xs else take (nat limit) xs)"

text \<open>
  \<^verbatim>\<open>getMostUsed(limit = 10)\<close>: \<^verbatim>\<open>Array.prototype.sort\<close> is stable, and so is
  \<open>sort_key\<close>; the comparator \<^verbatim>\<open>b.accessCount - a.accessCount\<close> sorts by descending count.
\<close>

definition getMostUsed :: "int option \<Rightarrow> 'v cache_manager \<Rightarrow> (string \<times> nat) list" where
  "getMostUsed limit_arg m =
     (let limit = (case limit_arg of None \<Rightarrow> 10 | Some l \<Rightarrow> l);
          items = map (\<lambda>(key, item). (key, accessCount item)) (cache m)
      in slice0 limit (sort_key (\<lambda>(key, count). - int count) items))"

section \<open>PerformanceMonitor: statistics and health score\<close>

text \<open>
  JavaScript numbers are modelled as real numbers, with exact arithmetic: the rounding and
  the overflow of IEEE doubles are outside the model, and nothing below is stated about
  them. Where a missing property makes the source produce \<^verbatim>\<open>NaN\<close> the type \<open>number\<close>
  adds it: arithmetic and
  \<^verbatim>\<open>Math.max\<close>/\<^verbatim>\<open>Math.min\<close> return \<^verbatim>\<open>NaN\<close> as soon as an argument is \<^verbatim>\<open>NaN\<close>,
  and a missing property (\<^verbatim>\<open>undefined\<close>) converts to \<^verbatim>\<open>NaN\<close>. Timestamps are
  milliseconds. Fields are prefixed (\<open>m_\<close>, \<open>e_\<close>, \<open>b_\<close>) where two records of the
  source share a field name.
\<close>

datatype number = NaN | Num real

fun num_sub :: "number \<Rightarrow> number \<Rightarrow> number" where
  "num_sub (Num a) (Num b) = Num (a - b)"
| "num_sub _ _ = NaN"

fun num_mul :: "number \<Rightarrow> number \<Rightarrow> number" where
  "num_mul (Num a) (Num b) = Num (a * b)"
| "num_mul _ _ = NaN"

fun math_max :: "number \<Rightarrow> number \<Rightarrow> number" where
  "math_max (Num a) (Num b) = Num (max a b)"
| "math_max _ _ = NaN"

fun math_min :: "number \<Rightarrow> number \<Rightarrow> number" where
  "math_min (Num a) (Num b) = Num (min a b)"
| "math_min _ _ = NaN"

text \<open>A property read from a \<^verbatim>\<open>Record<string, number>\<close>, used as a number.\<close>

fun to_number :: "nat option \<Rightarrow> number" where
  "to_number None = NaN"
| "to_number (Some n) = Num (real n)"

datatype severity = Low | Medium | High | Critical

record performance_metric =
  m_timestamp :: int
  m_operation :: string
  m_duration :: real
  m_success :: bool
  m_error :: "string option"

record error_log =
  e_timestamp :: int
  e_error :: string
  e_context :: string
  e_severity :: severity

record breakdown =
  b_count :: nat
  b_avgTime :: real
  b_successRate :: real

record performance_stats =
  totalOperations :: nat
  successRate :: real
  averageResponseTime :: real
  slowestOperations :: "performance_metric list"
  operationBreakdown :: "(string \<times> breakdown) list"

record error_stats =
  totalErrors :: nat
  errorsBySeverity :: "(severity \<times> nat) list"
  errorsByContext :: "(string \<times> nat) list"
  recentErrors :: "error_log list"
  errorTrends :: "(nat \<times> nat) list"

text \<open>
  The recommendation strings of the source are Arabic sentences; each is named here by the
  check that emits it.
\<close>

datatype recommendation = LowSuccessRate | SlowResponseTime | HighErrorCount | CriticalErrorsPresent

record report =
  performance :: performance_stats
  errors :: error_stats
  recommendations :: "recommendation list"
  healthScore :: number

text \<open>
  \<open>operationBreakdown\<close> is a plain object literal \<^verbatim>\<open>{}\<close>, which inherits the properties of
  \<^verbatim>\<open>Object.prototype\<close>. For an operation called by one of these names the read
  \<^verbatim>\<open>operationBreakdown[metric.operation]\<close> finds the inherited value, which is truthy: no
  entry is created, and the increments go to the inherited object, not to
  \<open>operationBreakdown\<close>.
\<close>

definition object_prototype_names :: "string list" where
  "object_prototype_names =
     [''constructor'', ''__defineGetter__'', ''__defineSetter__'', ''hasOwnProperty'',
      ''__lookupGetter__'', ''__lookupSetter__'', ''isPrototypeOf'', ''propertyIsEnumerable'',
      ''toString'', ''valueOf'', ''__proto__'', ''toLocaleString'']"

text \<open>
  The body of the \<^verbatim>\<open>forEach\<close> that builds \<open>operationBreakdown\<close>: create the entry on
  first sight, increment \<open>count\<close>, update the running average. The update is written
  in exact arithmetic; the source rounds to a double at each of its three operations.
\<close>

definition breakdown_step ::
  "performance_metric \<Rightarrow> (string \<times> breakdown) list \<Rightarrow> (string \<times> breakdown) list" where
  "breakdown_step metric bd =
     (if m_operation metric \<in> set object_prototype_names then bd
      else
        (let b0 = (case map_of bd (m_operation metric) of
                     None \<Rightarrow> \<lparr>b_count = 0, b_avgTime = 0, b_successRate = 0\<rparr>
                   | Some b \<Rightarrow> b);
             c = b_count b0 + 1
         in AList.update (m_operation metric)
              (b0\<lparr>b_count := c,
                  b_avgTime := (b_avgTime b0 * real (c - 1) + m_duration metric) / real c\<rparr>)
              bd))"

text \<open>
  \<^verbatim>\<open>getPerformanceStats(timeRange)\<close> at clock reading \<open>now\<close>.
  \<^verbatim>\<open>recentMetrics.sort(...)\<close> sorts the filtered array in place (a stable sort by
  descending duration), so the loops after it run over the sorted array.
\<close>

definition getPerformanceStats :: "int \<Rightarrow> int \<Rightarrow> performance_metric list \<Rightarrow> performance_stats" where
  "getPerformanceStats now timeRange metrics =
     (let cutoff = now - timeRange;
          recentMetrics = filter (\<lambda>m. m_timestamp m \<ge> cutoff) metrics;
          total = length recentMetrics;
          successfulOperations = length (filter m_success recentMetrics);
          success_rate = (if total > 0 then real successfulOperations / real total * 100 else 0);
          totalTime = fold (\<lambda>m s. s + m_duration m) recentMetrics 0;
          average = (if total > 0 then totalTime / real total else 0);
          sortedMetrics = sort_key (\<lambda>m. - m_duration m) recentMetrics;
          bd = fold breakdown_step sortedMetrics [];
          bd2 = map (\<lambda>(name, b).
                   (let operationMetrics = filter (\<lambda>m. m_operation m = name) sortedMetrics;
                        successful = length (filter m_success operationMetrics)
                    in (name, b\<lparr>b_successRate :=
                                 real successful / real (length operationMetrics) * 100\<rparr>))) bd
      in \<lparr>totalOperations = total, successRate = success_rate, averageResponseTime = average,
          slowestOperations = take 10 sortedMetrics, operationBreakdown = bd2\<rparr>)"

text \<open>
  \<^verbatim>\<open>counts[k] = (counts[k] || 0) + 1\<close> on a \<^verbatim>\<open>Record\<close>, for a key that is not a name
  inherited from \<^verbatim>\<open>Object.prototype\<close> (the severities are not).
\<close>

definition bump :: "'k \<Rightarrow> ('k \<times> nat) list \<Rightarrow> ('k \<times> nat) list" where
  "bump k counts = AList.update k ((case map_of counts k of None \<Rightarrow> 0 | Some c \<Rightarrow> c) + 1) counts"

text \<open>
  \<^verbatim>\<open>getErrorStats(timeRange)\<close> at clock reading \<open>now\<close>. The hourly loop runs \<open>i\<close> from
  0 to 23 and puts each bucket at the front of \<open>errorTrends\<close>;
  \<^verbatim>\<open>recentErrors.slice(-20)\<close> keeps the last 20.
\<close>

definition getErrorStats :: "int \<Rightarrow> int \<Rightarrow> error_log list \<Rightarrow> error_stats" where
  "getErrorStats now timeRange errs =
     (let cutoff = now - timeRange;
          recent = filter (\<lambda>e. e_timestamp e \<ge> cutoff) errs;
          bySeverity = fold (\<lambda>e acc. bump (e_severity e) acc) recent [];
          byContext = fold (\<lambda>e acc. bump (e_context e) acc) recent [];
          trends = fold (\<lambda>i acc.
                     (let hourStart = now - (int i + 1) * 60 * 60 * 1000;
                          hourEnd = now - int i * 60 * 60 * 1000;
                          hourErrors = length (filter (\<lambda>e. e_timestamp e \<ge> hourStart
                                                         \<and> e_timestamp e < hourEnd) recent)
                      in (23 - i, hourErrors) # acc)) [0..<24] []
      in \<lparr>totalErrors = length recent, errorsBySeverity = bySeverity,
          errorsByContext = byContext,
          recentErrors = drop (length recent - 20) recent,
          errorTrends = trends\<rparr>)"

text \<open>
  \<^verbatim>\<open>generateReport()\<close>: both statistics are taken over the default window of 24 hours.
  \<^verbatim>\<open>errors.errorsBySeverity.critical\<close> and \<^verbatim>\<open>.high\<close> are property reads, absent
  (\<^verbatim>\<open>undefined\<close>) when no error of that severity is in the window; \<^verbatim>\<open>undefined > 0\<close>
  is false.
\<close>

definition generateReport :: "int \<Rightarrow> performance_metric list \<Rightarrow> error_log list \<Rightarrow> report" where
  "generateReport now metrics errs =
     (let perf = getPerformanceStats now (24 * 60 * 60 * 1000) metrics;
          es = getErrorStats now (24 * 60 * 60 * 1000) errs;
          recs = (if successRate perf < 95 then [LowSuccessRate] else [])
               @ (if averageResponseTime perf > 3000 then [SlowResponseTime] else [])
               @ (if totalErrors es > 50 then [HighErrorCount] else [])
               @ (case map_of (errorsBySeverity es) Critical of
                    None \<Rightarrow> []
                  | Some c \<Rightarrow> if c > 0 then [CriticalErrorsPresent] else []);
          h0 = Num 100;
          h1 = num_sub h0 (math_max (Num 0) (Num ((95 - successRate perf) * 2)));
          h2 = num_sub h1 (math_max (Num 0) (Num ((averageResponseTime perf - 2000) / 100)));
          h3 = num_sub h2 (num_mul (to_number (map_of (errorsBySeverity es) Critical)) (Num 10));
          h4 = num_sub h3 (num_mul (to_number (map_of (errorsBySeverity es) High)) (Num 5));
          h5 = math_max (Num 0) (math_min (Num 100) h4)
      in \<lparr>performance = perf, errors = es, recommendations = recs, healthScore = h5\<rparr>)"

subsection \<open>Counting errors by severity\<close>

text \<open>
  The number of errors of one severity within the 24 hours before \<open>now\<close>, in the words
  of the specification ("criticalErrorCount", "highErrorCount").
\<close>

definition severity_count :: "int \<Rightarrow> severity \<Rightarrow> error_log list \<Rightarrow> nat" where
  "severity_count now s errs =
     length (filter (\<lambda>e. e_severity e = s)
               (filter (\<lambda>e. e_timestamp e \<ge> now - 24 * 60 * 60 * 1000) errs))"

section \<open>RetryManager: retries with backoff and a circuit breaker\<close>

text \<open>
  The wrapped operation is an effectful function: it takes the state of the world and
  returns its outcome (\<open>Inl\<close> the error it throws, \<open>Inr\<close> its result) with the new
  state. The platform functions the source calls are the fields of \<open>platform\<close>:
  \<^verbatim>\<open>Date.now()\<close>, the timed wait \<^verbatim>\<open>sleep(ms)\<close> and \<^verbatim>\<open>Math.random()\<close>.
\<close>

record 'w platform =
  date_now :: "'w \<Rightarrow> int"
  sleep :: "real \<Rightarrow> 'w \<Rightarrow> 'w"
  math_random :: "'w \<Rightarrow> real \<times> 'w"

record 'e retry_config =
  maxAttempts :: int
  baseDelay :: real
  maxDelay :: real
  backoffFactor :: real
  jitter :: bool
  retryCondition :: "'e \<Rightarrow> bool"

text \<open>\<^verbatim>\<open>Partial<RetryConfig>\<close>: every field may be absent.\<close>

record 'e partial_config =
  p_maxAttempts :: "int option"
  p_baseDelay :: "real option"
  p_maxDelay :: "real option"
  p_backoffFactor :: "real option"
  p_jitter :: "bool option"
  p_retryCondition :: "('e \<Rightarrow> bool) option"

record 'e retry_attempt =
  attempt :: nat
  attempt_timestamp :: int
  attempt_error :: 'e
  delay :: real

record ('e, 'a) retry_result =
  success :: bool
  result :: "'a option"
  error :: "'e option"
  attempts :: "'e retry_attempt list"
  totalTime :: int

text \<open>The two errors the manager itself throws.\<close>

datatype thrown = CircuitBreakerOpen string | UnexpectedEndOfRetryLoop

text \<open>
  \<open>defaultConfig\<close>; the default retry condition (a test of the error's status and
  message) is a parameter.
\<close>

definition defaultConfig :: "('e \<Rightarrow> bool) \<Rightarrow> 'e retry_config" where
  "defaultConfig defaultRetryCondition =
     \<lparr>maxAttempts = 3, baseDelay = 1000, maxDelay = 30000, backoffFactor = 2, jitter = True,
      retryCondition = defaultRetryCondition\<rparr>"

text \<open>\<^verbatim>\<open>{ ...this.defaultConfig, ...config }\<close>\<close>

definition merge_config :: "'e retry_config \<Rightarrow> 'e partial_config \<Rightarrow> 'e retry_config" where
  "merge_config d c =
     \<lparr>maxAttempts = (case p_maxAttempts c of None \<Rightarrow> maxAttempts d | Some x \<Rightarrow> x),
      baseDelay = (case p_baseDelay c of None \<Rightarrow> baseDelay d | Some x \<Rightarrow> x),
      maxDelay = (case p_maxDelay c of None \<Rightarrow> maxDelay d | Some x \<Rightarrow> x),
      backoffFactor = (case p_backoffFactor c of None \<Rightarrow> backoffFactor d | Some x \<Rightarrow> x),
      jitter = (case p_jitter c of None \<Rightarrow> jitter d | Some x \<Rightarrow> x),
      retryCondition = (case p_retryCondition c of None \<Rightarrow> retryCondition d | Some x \<Rightarrow> x)\<rparr>"

text \<open>
  \<^verbatim>\<open>calculateDelay(attempt, config)\<close>; \<open>attempt\<close> is at least 1 where the source
  calls it, so the exponent \<open>attempt - 1\<close> is a natural number. The arithmetic is exact:
  in the source a power that overflows is \<^verbatim>\<open>Infinity\<close>, and its product with a
  \<open>baseDelay\<close> of 0 is \<^verbatim>\<open>NaN\<close>, which this definition does not show.
\<close>

definition calculateDelay :: "'w platform \<Rightarrow> nat \<Rightarrow> 'e retry_config \<Rightarrow> 'w \<Rightarrow> real \<times> 'w" where
  "calculateDelay pf n config w =
     (let d0 = baseDelay config * backoffFactor config ^ (n - 1);
          d1 = min d0 (maxDelay config)
      in if jitter config
         then (case math_random pf w of
                 (r, w') \<Rightarrow>
                   (let jitterAmount = d1 * 0.1
                    in (max (d1 + (r - 0.5) * 2 * jitterAmount) 0, w')))
         else (max d1 0, w))"

text \<open>
  The \<^verbatim>\<open>for\<close> loop of \<^verbatim>\<open>execute\<close>, from attempt \<open>n\<close> on, with the attempt records
  pushed so far. The record pushed for a failed attempt has delay 0; when the loop goes on,
  the delay is written into that same record.
\<close>

function execute_loop ::
  "'w platform \<Rightarrow> ('w \<Rightarrow> ('e + 'a) \<times> 'w) \<Rightarrow> 'e retry_config \<Rightarrow> int \<Rightarrow> nat
     \<Rightarrow> 'e retry_attempt list \<Rightarrow> 'w \<Rightarrow> (thrown + ('e, 'a) retry_result) \<times> 'w" where
  "execute_loop pf operation finalConfig startTime n atts w =
     (if int n \<le> maxAttempts finalConfig
      then (case operation w of
              (Inr res, w1) \<Rightarrow>
                (Inr \<lparr>success = True, result = Some res, error = None, attempts = atts,
                      totalTime = date_now pf w1 - startTime\<rparr>, w1)
            | (Inl err, w1) \<Rightarrow>
                (let attemptRecord = \<lparr>attempt = n, attempt_timestamp = date_now pf w1,
                                      attempt_error = err, delay = 0\<rparr>;
                     shouldRetry = retryCondition finalConfig err;
                     isLastAttempt = (int n = maxAttempts finalConfig)
                 in if \<not> shouldRetry \<or> isLastAttempt
                    then (Inr \<lparr>success = False, result = None, error = Some err,
                               attempts = atts @ [attemptRecord],
                               totalTime = date_now pf w1 - startTime\<rparr>, w1)
                    else (case calculateDelay pf n finalConfig w1 of
                            (d, w2) \<Rightarrow>
                              execute_loop pf operation finalConfig startTime (Suc n)
                                (atts @ [attemptRecord\<lparr>delay := d\<rparr>]) (sleep pf d w2))))
      else (Inl UnexpectedEndOfRetryLoop, w))"
  by pat_completeness auto
termination
  by (relation "measure (\<lambda>(pf, operation, finalConfig, startTime, n, atts, w).
                   nat (maxAttempts finalConfig + 1 - int n))") auto

declare execute_loop.simps [simp del]

definition execute ::
  "'w platform \<Rightarrow> ('e \<Rightarrow> bool) \<Rightarrow> ('w \<Rightarrow> ('e + 'a) \<times> 'w) \<Rightarrow> 'e partial_config \<Rightarrow> 'w
     \<Rightarrow> (thrown + ('e, 'a) retry_result) \<times> 'w" where
  "execute pf defaultRetryCondition operation config w =
     (let finalConfig = merge_config (defaultConfig defaultRetryCondition) config;
          startTime = date_now pf w
      in execute_loop pf operation finalConfig startTime 1 [] w)"

subsection \<open>Circuit breaker\<close>

datatype circuit_phase = Closed | Open | HalfOpen

record circuit =
  failures :: nat
  lastFailure :: int
  state :: circuit_phase

type_synonym circuit_states = "string \<Rightarrow> circuit option"

text \<open>
  \<^verbatim>\<open>isCircuitOpen(key)\<close> at clock reading \<open>now\<close>: it returns the answer and the
  circuit states, where an open circuit past its cooldown has become half-open.
\<close>

definition isCircuitOpen :: "int \<Rightarrow> string \<Rightarrow> circuit_states \<Rightarrow> bool \<times> circuit_states" where
  "isCircuitOpen now key cs =
     (case cs key of
        None \<Rightarrow> (False, cs)
      | Some st \<Rightarrow>
          (let timeSinceLastFailure = now - lastFailure st
           in if state st = Open \<and> timeSinceLastFailure > 60000
              then (False, cs(key \<mapsto> st\<lparr>state := HalfOpen\<rparr>))
              else (state st = Open, cs)))"

definition recordSuccess :: "string \<Rightarrow> circuit_states \<Rightarrow> circuit_states" where
  "recordSuccess key cs =
     (case cs key of
        None \<Rightarrow> cs
      | Some st \<Rightarrow> cs(key \<mapsto> st\<lparr>failures := 0, state := Closed\<rparr>))"

definition recordFailure :: "int \<Rightarrow> string \<Rightarrow> circuit_states \<Rightarrow> circuit_states" where
  "recordFailure now key cs =
     (let st = (case cs key of
                  None \<Rightarrow> \<lparr>failures = 0, lastFailure = now, state = Closed\<rparr>
                | Some st \<Rightarrow> st);
          st1 = st\<lparr>failures := failures st + 1, lastFailure := now\<rparr>
      in cs(key \<mapsto> (if failures st1 \<ge> 5 then st1\<lparr>state := Open\<rparr> else st1)))"

text \<open>
  How a call of a JavaScript function completes. A call either raises an error
  synchronously (\<open>Raised\<close>) or returns a value (\<open>Returned\<close>). An \<^verbatim>\<open>async\<close> function
  never raises: it always returns a promise, and a \<^verbatim>\<open>throw\<close> anywhere in its body,
  also before the first \<^verbatim>\<open>await\<close>, settles that promise as \<open>Rejected\<close>; a
  \<^verbatim>\<open>return\<close> settles it as \<open>Fulfilled\<close>.
\<close>

datatype ('x, 'a) promise = Rejected 'x | Fulfilled 'a

datatype ('x, 'p) completion = Raised 'x | Returned 'p

text \<open>
  \<^verbatim>\<open>async retryWithCircuitBreaker(operation, circuitBreakerKey, config)\<close>: the state is
  the pair of the circuit states and the world. The function is \<^verbatim>\<open>async\<close>, so every
  call returns a promise; the \<^verbatim>\<open>throw\<close> for an open circuit and the re-\<^verbatim>\<open>throw\<close> of the
  \<^verbatim>\<open>catch\<close> block reject it. \<^verbatim>\<open>execute\<close> is awaited inside \<^verbatim>\<open>try\<close>: its \<open>Inl\<close> is the
  rejection the \<^verbatim>\<open>catch\<close> block receives.
\<close>

definition retryWithCircuitBreaker ::
  "'w platform \<Rightarrow> ('e \<Rightarrow> bool) \<Rightarrow> ('w \<Rightarrow> ('e + 'a) \<times> 'w) \<Rightarrow> string \<Rightarrow> 'e partial_config
     \<Rightarrow> circuit_states \<times> 'w
     \<Rightarrow> (thrown, (thrown, ('e, 'a) retry_result) promise) completion \<times> circuit_states \<times> 'w" where
  "retryWithCircuitBreaker pf defaultRetryCondition operation circuitBreakerKey config s =
     (case s of (cs, w) \<Rightarrow>
        (case isCircuitOpen (date_now pf w) circuitBreakerKey cs of
           (True, cs1) \<Rightarrow> (Returned (Rejected (CircuitBreakerOpen circuitBreakerKey)), cs1, w)
         | (False, cs1) \<Rightarrow>
             (case execute pf defaultRetryCondition operation config w of
                (Inr res, w1) \<Rightarrow>
                  if success res
                  then (Returned (Fulfilled res), recordSuccess circuitBreakerKey cs1, w1)
                  else (Returned (Fulfilled res),
                        recordFailure (date_now pf w1) circuitBreakerKey cs1, w1)
              | (Inl err, w1) \<Rightarrow>
                  (Returned (Rejected err),
                   recordFailure (date_now pf w1) circuitBreakerKey cs1, w1))))"

subsection \<open>Sequences of calls on one circuit\<close>

text \<open>
  The outcome of a call counts as a failure when its promise is rejected or is fulfilled
  with an unsuccessful result; these are the outcomes after which the source calls
  \<^verbatim>\<open>recordFailure\<close>, and the rejection for an open circuit.
\<close>

definition failed :: "(thrown, (thrown, ('e, 'a) retry_result) promise) completion \<Rightarrow> bool" where
  "failed r =
     (case r of
        Raised err \<Rightarrow> True
      | Returned p \<Rightarrow> (case p of Rejected err \<Rightarrow> True | Fulfilled res \<Rightarrow> \<not> success res))"

text \<open>
  Consecutive calls of \<open>retryWithCircuitBreaker\<close> on one key: each call comes with its
  operation, its configuration and the state of the world when it is made. The result is
  the list of outcomes and the circuit states after the last call.
\<close>

fun run_calls ::
  "'w platform \<Rightarrow> ('e \<Rightarrow> bool) \<Rightarrow> string
     \<Rightarrow> (('w \<Rightarrow> ('e + 'a) \<times> 'w) \<times> 'e partial_config \<times> 'w) list
     \<Rightarrow> circuit_states
     \<Rightarrow> (thrown, (thrown, ('e, 'a) retry_result) promise) completion list \<times> circuit_states" where
  "run_calls pf defaultRetryCondition key [] cs = ([], cs)"
| "run_calls pf defaultRetryCondition key ((operation, config, w) # rest) cs =
     (case retryWithCircuitBreaker pf defaultRetryCondition operation key config (cs, w) of
        (r, cs1, w1) \<Rightarrow>
          (case run_calls pf defaultRetryCondition key rest cs1 of
             (rs, cs2) \<Rightarrow> (r # rs, cs2)))"

text \<open>
  Two observers of the circuit of a key, used to state invariants: its failure counter
  (0 when the key has no circuit yet) and whether its phase is open.
\<close>

definition failures_of :: "circuit_states \<Rightarrow> string \<Rightarrow> nat" where
  "failures_of cs K = (case cs K of None \<Rightarrow> 0 | Some c \<Rightarrow> failures c)"

definition phase_open :: "circuit_states \<Rightarrow> string \<Rightarrow> bool" where
  "phase_open cs K = (case cs K of None \<Rightarrow> False | Some c \<Rightarrow> state c = Open)"

section \<open>Properties of the cache\<close>

lemma map_of_set_item:
  "map_of (cache (set_item now now_evict key v ttl_arg m)) key =
     Some \<lparr>val = v, timestamp = now,
           ttl = (case ttl_arg of None \<Rightarrow> defaultTTL m
                  | Some t \<Rightarrow> if t = 0 then defaultTTL m else t),
           accessCount = 0, lastAccessed = now\<rparr>"
  by (simp add: set_item_def Let_def update_conv')

lemma length_delete_present:
  "distinct (map fst xs) \<Longrightarrow> map_of xs k = Some item \<Longrightarrow> Suc (length (AList.delete k xs)) = length xs"
  by (induction xs) (auto split: if_splits intro: rev_image_eqI)

lemma fold_memory:
  "fold (\<lambda>(key, item) mem. mem + f key item) xs (a::nat) = a + sum_list (map (\<lambda>(key, item). f key item) xs)"
  by (induction xs arbitrary: a) (auto simp: add.assoc)

lemma sum_list_delete_present:
  "distinct (map fst xs) \<Longrightarrow> map_of xs k = Some item \<Longrightarrow>
     sum_list (map (\<lambda>(key, item). (f key item :: nat)) xs)
       = sum_list (map (\<lambda>(key, item). f key item) (AList.delete k xs)) + f k item"
  by (induction xs) (auto split: if_splits intro: rev_image_eqI)

lemma distinct_set_item: "distinct (map fst (cache m)) \<Longrightarrow> distinct (map fst (cache (set_item now ne k v t m)))"
  by (simp add: set_item_def Let_def evictLRU_def distinct_update distinct_delete)

lemma slice0_all: "int (length xs) \<le> limit \<Longrightarrow> slice0 limit xs = xs"
  by (simp add: slice0_def)

text \<open>
  C10. For a key that is already present, \<open>set_item\<close> replaces its entry by a fresh one:
  the access count is 0 again and the creation time (from which the TTL is measured) and
  the last access are the time of the overwrite, whatever the old entry held.
\<close>

theorem set_item_overwrite_fresh:
  assumes "map_of (cache m) key = Some old"
  shows "\<exists>item. map_of (cache (set_item now now_evict key v ttl_arg m)) key = Some item
           \<and> val item = v \<and> accessCount item = 0 \<and> timestamp item = now
           \<and> lastAccessed item = now
           \<and> ttl item = (case ttl_arg of None \<Rightarrow> defaultTTL m
                          | Some t \<Rightarrow> if t = 0 then defaultTTL m else t)
           \<and> fst (get now' key (set_item now now_evict key v ttl_arg m))
               = (if now' - now > ttl item then None else Some v)"
  by (simp add: map_of_set_item get_def)

theorem set_item_overwrite_fresh_witness:
  "map_of (cache \<lparr>cache = [(''k'', \<lparr>val = (1::nat), timestamp = 0, ttl = 100, accessCount = 7,
                                   lastAccessed = 90\<rparr>)],
                  maxSize = 5, defaultTTL = 100, hits = 7, misses = 0\<rparr>) ''k''
     = Some \<lparr>val = 1, timestamp = 0, ttl = 100, accessCount = 7, lastAccessed = 90\<rparr>
   \<and> (\<exists>item. map_of (cache (set_item 95 95 ''k'' 2 (Some 50)
          \<lparr>cache = [(''k'', \<lparr>val = (1::nat), timestamp = 0, ttl = 100, accessCount = 7,
                             lastAccessed = 90\<rparr>)],
            maxSize = 5, defaultTTL = 100, hits = 7, misses = 0\<rparr>)) ''k'' = Some item
        \<and> val item = 2 \<and> accessCount item = 0 \<and> timestamp item = 95
        \<and> lastAccessed item = 95 \<and> ttl item = 50)"
  using set_item_overwrite_fresh [of
      "\<lparr>cache = [(''k'', \<lparr>val = (1::nat), timestamp = 0, ttl = 100, accessCount = 7,
                         lastAccessed = 90\<rparr>)],
        maxSize = 5, defaultTTL = 100, hits = 7, misses = 0\<rparr>"
      "''k''" "\<lparr>val = 1, timestamp = 0, ttl = 100, accessCount = 7, lastAccessed = 90\<rparr>"
      95 95 2 "Some 50" 100]
  by auto

text \<open>
  C2. The claim is that after any \<open>set\<close> the cache holds at most \<open>maxSize\<close> entries.
  Two \<open>set\<close> calls on distinct keys within the same millisecond, on a cache of
  capacity 1, leave two entries: \<open>evictLRU\<close> starts from the current clock reading and
  replaces it only by a strictly smaller \<open>lastAccessed\<close>, so an entry last accessed in
  the current millisecond is never chosen and nothing is evicted.
\<close>

theorem set_item_same_millisecond_exceeds_maxSize:
  "length (cache (set_item 0 0 ''b'' (2::nat) None (set_item 0 0 ''a'' 1 None (new_cache 1 1000)))) = 2
   \<and> maxSize (set_item 0 0 ''b'' (2::nat) None (set_item 0 0 ''a'' 1 None (new_cache 1 1000))) = 1"
  by (simp add: set_item_def new_cache_def evictLRU_def Let_def)

text \<open>
  C5, as stated, fails: \<open>set\<close> calls \<open>evictLRU\<close> whenever the cache is full, without
  looking whether the key is present. Overwriting \<open>b\<close> in a full cache of two entries
  evicts the other entry \<open>a\<close>.
\<close>

theorem set_item_overwrite_evicts_other_entry:
  "map_of (cache
     \<lparr>cache = [(''a'', \<lparr>val = 1, timestamp = 1, ttl = 1000, accessCount = 0, lastAccessed = 1\<rparr>),
               (''b'', \<lparr>val = 2, timestamp = 2, ttl = 1000, accessCount = 0, lastAccessed = 2\<rparr>)],
      maxSize = 2, defaultTTL = 1000, hits = 0, misses = 0\<rparr>) ''b''
     = Some \<lparr>val = (2::nat), timestamp = 2, ttl = 1000, accessCount = 0, lastAccessed = 2\<rparr>
   \<and> map_of (cache
     \<lparr>cache = [(''a'', \<lparr>val = 1, timestamp = 1, ttl = 1000, accessCount = 0, lastAccessed = 1\<rparr>),
               (''b'', \<lparr>val = 2, timestamp = 2, ttl = 1000, accessCount = 0, lastAccessed = 2\<rparr>)],
      maxSize = 2, defaultTTL = 1000, hits = 0, misses = 0\<rparr>) ''a''
     = Some \<lparr>val = (1::nat), timestamp = 1, ttl = 1000, accessCount = 0, lastAccessed = 1\<rparr>
   \<and> map_of (cache (set_item 10 10 ''b'' (9::nat) None
     \<lparr>cache = [(''a'', \<lparr>val = 1, timestamp = 1, ttl = 1000, accessCount = 0, lastAccessed = 1\<rparr>),
               (''b'', \<lparr>val = 2, timestamp = 2, ttl = 1000, accessCount = 0, lastAccessed = 2\<rparr>)],
      maxSize = 2, defaultTTL = 1000, hits = 0, misses = 0\<rparr>)) ''a'' = None
   \<and> length (cache (set_item 10 10 ''b'' (9::nat) None
     \<lparr>cache = [(''a'', \<lparr>val = 1, timestamp = 1, ttl = 1000, accessCount = 0, lastAccessed = 1\<rparr>),
               (''b'', \<lparr>val = 2, timestamp = 2, ttl = 1000, accessCount = 0, lastAccessed = 2\<rparr>)],
      maxSize = 2, defaultTTL = 1000, hits = 0, misses = 0\<rparr>)) = 1"
  by (simp add: set_item_def evictLRU_def Let_def)

text \<open>
  C5, amended. When the cache holds fewer than \<open>maxSize\<close> entries, \<open>set\<close> on a present
  key overwrites that entry in place: every other key keeps its entry with all its
  metadata, the keys and their order are the same, and the counters and the configuration
  are unchanged.
\<close>

theorem set_item_below_capacity_frame:
  assumes "map_of (cache m) key = Some old" and "int (length (cache m)) < maxSize m"
  shows "(\<forall>k. k \<noteq> key \<longrightarrow>
            map_of (cache (set_item now now_evict key v ttl_arg m)) k = map_of (cache m) k)
       \<and> map fst (cache (set_item now now_evict key v ttl_arg m)) = map fst (cache m)
       \<and> maxSize (set_item now now_evict key v ttl_arg m) = maxSize m
       \<and> defaultTTL (set_item now now_evict key v ttl_arg m) = defaultTTL m
       \<and> hits (set_item now now_evict key v ttl_arg m) = hits m
       \<and> misses (set_item now now_evict key v ttl_arg m) = misses m"
proof -
  have "key \<in> set (map fst (cache m))"
    using assms(1) by (metis map_of_eq_None_iff option.distinct(1) set_map)
  then show ?thesis
    using assms(2) by (simp add: set_item_def Let_def update_conv' update_keys)
qed

theorem set_item_below_capacity_frame_witness:
  "map_of (cache \<lparr>cache = [(''a'', \<lparr>val = (1::nat), timestamp = 1, ttl = 1000, accessCount = 4,
                                    lastAccessed = 7\<rparr>),
                            (''b'', \<lparr>val = 2, timestamp = 2, ttl = 1000, accessCount = 0,
                                    lastAccessed = 2\<rparr>)],
                   maxSize = 3, defaultTTL = 1000, hits = 4, misses = 0\<rparr>) ''b''
      = Some \<lparr>val = 2, timestamp = 2, ttl = 1000, accessCount = 0, lastAccessed = 2\<rparr>
   \<and> (2::int) < 3
   \<and> map_of (cache (set_item 10 10 ''b'' 9 None
         \<lparr>cache = [(''a'', \<lparr>val = (1::nat), timestamp = 1, ttl = 1000, accessCount = 4,
                              lastAccessed = 7\<rparr>),
                     (''b'', \<lparr>val = 2, timestamp = 2, ttl = 1000, accessCount = 0,
                              lastAccessed = 2\<rparr>)],
           maxSize = 3, defaultTTL = 1000, hits = 4, misses = 0\<rparr>)) ''a''
      = Some \<lparr>val = 1, timestamp = 1, ttl = 1000, accessCount = 4, lastAccessed = 7\<rparr>"
  using set_item_below_capacity_frame [where
      m = "\<lparr>cache = [(''a'', \<lparr>val = (1::nat), timestamp = 1, ttl = 1000, accessCount = 4,
                                lastAccessed = 7\<rparr>),
                       (''b'', \<lparr>val = 2, timestamp = 2, ttl = 1000, accessCount = 0,
                                lastAccessed = 2\<rparr>)],
            maxSize = 3, defaultTTL = 1000, hits = 4, misses = 0\<rparr>"
      and key = "''b''"
      and old = "\<lparr>val = 2, timestamp = 2, ttl = 1000, accessCount = 0, lastAccessed = 2\<rparr>"
      and now = 10 and now_evict = 10 and v = 9 and ttl_arg = None]
  by simp

lemma lru_scan_result:
  "(lru_scan xs k0 t0 = k0 \<and> (\<forall>(k, j) \<in> set xs. t0 \<le> lastAccessed j))
   \<or> (\<exists>i. (lru_scan xs k0 t0, i) \<in> set xs \<and> lastAccessed i < t0
          \<and> (\<forall>(k, j) \<in> set xs. lastAccessed i \<le> lastAccessed j))"
proof (induction xs arbitrary: k0 t0)
  case Nil
  then show ?case by simp
next
  case (Cons x xs)
  obtain k item where x: "x = (k, item)" by (cases x) auto
  show ?case
  proof (cases "lastAccessed item < t0")
    case True
    from Cons.IH [of k "lastAccessed item"] show ?thesis
      using True unfolding x by (auto 4 4)
  next
    case False
    from Cons.IH [of k0 t0] show ?thesis
      using False unfolding x by (auto 4 4)
  qed
qed

lemma length_update_le: "length (AList.update k v al) \<le> Suc (length al)"
  by (induction al) auto

lemma length_update_new: "k \<notin> fst ` set al \<Longrightarrow> length (AList.update k v al) = Suc (length al)"
  by (induction al) auto

text \<open>
  The capacity bound does hold when the clock has advanced: if every stored entry was
  last accessed strictly before the clock reading of \<open>evictLRU\<close>, no key is the empty
  string, the keys are distinct and \<open>maxSize\<close> is at least 1, a cache within its capacity
  stays within it after \<open>set\<close>.
\<close>

theorem set_item_capacity:
  assumes "distinct (map fst (cache m))"
    and "\<forall>(k, item) \<in> set (cache m). k \<noteq> [] \<and> lastAccessed item < now_evict"
    and "1 \<le> maxSize m"
    and "int (length (cache m)) \<le> maxSize m"
  shows "int (length (cache (set_item now now_evict key v ttl_arg m))) \<le> maxSize m
       \<and> maxSize (set_item now now_evict key v ttl_arg m) = maxSize m"
proof (cases "int (length (cache m)) \<ge> maxSize m")
  case False
  have "int (length (AList.update key x (cache m))) \<le> int (length (cache m)) + 1" for x
    using length_update_le [of key x "cache m"] by simp
  from this [of "\<lparr>val = v, timestamp = now,
                   ttl = (case ttl_arg of None \<Rightarrow> defaultTTL m
                          | Some t \<Rightarrow> if t = 0 then defaultTTL m else t),
                   accessCount = 0, lastAccessed = now\<rparr>"]
  show ?thesis
    using False by (simp add: set_item_def Let_def)
next
  case True
  then have ne: "cache m \<noteq> []"
    using assms(3) by auto
  let ?k = "lru_scan (cache m) [] now_evict"
  from lru_scan_result [of "cache m" "[]" now_evict]
  obtain i where i: "(?k, i) \<in> set (cache m)"
    using assms(2) ne by (cases "cache m") (auto 4 4)
  then have kne: "?k \<noteq> []"
    using assms(2) by auto
  have look: "map_of (cache m) ?k = Some i"
    using assms(1) i by simp
  have len: "Suc (length (AList.delete ?k (cache m))) = length (cache m)"
    using assms(1) look by (rule length_delete_present)
  have ev: "evictLRU now_evict m = m\<lparr>cache := AList.delete ?k (cache m)\<rparr>"
    using kne by (simp add: evictLRU_def Let_def)
  have "int (length (AList.update key x (AList.delete ?k (cache m))))
          \<le> int (length (AList.delete ?k (cache m))) + 1" for x
    using length_update_le [of key x "AList.delete ?k (cache m)"] by simp
  from this [of "\<lparr>val = v, timestamp = now,
                   ttl = (case ttl_arg of None \<Rightarrow> defaultTTL m
                          | Some t \<Rightarrow> if t = 0 then defaultTTL m else t),
                   accessCount = 0, lastAccessed = now\<rparr>"]
  show ?thesis
    using True len assms(4) by (simp add: set_item_def Let_def ev)
qed

theorem set_item_capacity_witness:
  "distinct (map fst (cache \<lparr>cache = [(''a'', \<lparr>val = (1::nat), timestamp = 1, ttl = 1000, accessCount = 0, lastAccessed = 5\<rparr>),
                (''b'', \<lparr>val = 2, timestamp = 2, ttl = 1000, accessCount = 0, lastAccessed = 2\<rparr>)],
       maxSize = 2, defaultTTL = 1000, hits = 0, misses = 0\<rparr>))
   \<and> (1::int) \<le> 2
   \<and> int (length (cache (set_item 10 11 ''c'' 3 None \<lparr>cache = [(''a'', \<lparr>val = (1::nat), timestamp = 1, ttl = 1000, accessCount = 0, lastAccessed = 5\<rparr>),
                (''b'', \<lparr>val = 2, timestamp = 2, ttl = 1000, accessCount = 0, lastAccessed = 2\<rparr>)],
       maxSize = 2, defaultTTL = 1000, hits = 0, misses = 0\<rparr>))) \<le> 2"
  using set_item_capacity [where m = "\<lparr>cache = [(''a'', \<lparr>val = (1::nat), timestamp = 1, ttl = 1000, accessCount = 0, lastAccessed = 5\<rparr>),
                (''b'', \<lparr>val = 2, timestamp = 2, ttl = 1000, accessCount = 0, lastAccessed = 2\<rparr>)],
       maxSize = 2, defaultTTL = 1000, hits = 0, misses = 0\<rparr>" and now_evict = 11 and now = 10 and key = "''c''"
      and v = 3 and ttl_arg = None]
  by simp

text \<open>
  Under the same conditions, \<open>set\<close> of a new key into a full cache evicts an entry
  whose \<open>lastAccessed\<close> is least, keeps every other entry, stores the new key, and
  leaves exactly \<open>maxSize\<close> entries.
\<close>

theorem set_item_full_evicts_lru:
  assumes "distinct (map fst (cache m))"
    and "\<forall>(k, item) \<in> set (cache m). k \<noteq> [] \<and> lastAccessed item < now_evict"
    and "1 \<le> maxSize m"
    and "int (length (cache m)) = maxSize m"
    and "key \<notin> fst ` set (cache m)"
  shows "\<exists>old item. (old, item) \<in> set (cache m)
           \<and> (\<forall>(k, j) \<in> set (cache m). lastAccessed item \<le> lastAccessed j)
           \<and> map_of (cache (set_item now now_evict key v ttl_arg m)) old = None
           \<and> (\<forall>k. k \<noteq> old \<and> k \<noteq> key \<longrightarrow>
                  map_of (cache (set_item now now_evict key v ttl_arg m)) k = map_of (cache m) k)
           \<and> map_of (cache (set_item now now_evict key v ttl_arg m)) key \<noteq> None
           \<and> int (length (cache (set_item now now_evict key v ttl_arg m))) = maxSize m"
proof -
  have ne: "cache m \<noteq> []"
    using assms(3,4) by auto
  let ?k = "lru_scan (cache m) [] now_evict"
  from lru_scan_result [of "cache m" "[]" now_evict]
  obtain i where i: "(?k, i) \<in> set (cache m)"
    and least: "\<forall>(k, j) \<in> set (cache m). lastAccessed i \<le> lastAccessed j"
    using assms(2) ne by (cases "cache m") (auto 4 4)
  then have kne: "?k \<noteq> []"
    using assms(2) by auto
  have look: "map_of (cache m) ?k = Some i"
    using assms(1) i by simp
  have len: "Suc (length (AList.delete ?k (cache m))) = length (cache m)"
    using assms(1) look by (rule length_delete_present)
  have ev: "evictLRU now_evict m = m\<lparr>cache := AList.delete ?k (cache m)\<rparr>"
    using kne by (simp add: evictLRU_def Let_def)
  have new: "key \<notin> fst ` set (AList.delete ?k (cache m))"
    using assms(5) by (auto simp: AList.delete_eq)
  have neq: "?k \<noteq> key"
    using i assms(5) by force
  have c: "cache (set_item now now_evict key v ttl_arg m)
        = AList.update key \<lparr>val = v, timestamp = now,
                   ttl = (case ttl_arg of None \<Rightarrow> defaultTTL m
                          | Some t \<Rightarrow> if t = 0 then defaultTTL m else t),
                   accessCount = 0, lastAccessed = now\<rparr> (AList.delete ?k (cache m))"
    using assms(4) by (simp add: set_item_def Let_def ev)
  have l: "int (length (cache (set_item now now_evict key v ttl_arg m))) = maxSize m"
    using new len assms(4) unfolding c by (simp add: length_update_new)
  show ?thesis
    using i least l neq unfolding c
    by (intro exI [where x = ?k] exI [where x = i]) (simp add: update_conv' delete_conv')
qed

theorem set_item_full_evicts_lru_witness:
  "distinct (map fst (cache \<lparr>cache = [(''a'', \<lparr>val = (1::nat), timestamp = 1, ttl = 1000, accessCount = 0, lastAccessed = 5\<rparr>),
                (''b'', \<lparr>val = 2, timestamp = 2, ttl = 1000, accessCount = 0, lastAccessed = 2\<rparr>)],
       maxSize = 2, defaultTTL = 1000, hits = 0, misses = 0\<rparr>))
   \<and> ''c'' \<notin> fst ` set (cache \<lparr>cache = [(''a'', \<lparr>val = (1::nat), timestamp = 1, ttl = 1000, accessCount = 0, lastAccessed = 5\<rparr>),
                (''b'', \<lparr>val = 2, timestamp = 2, ttl = 1000, accessCount = 0, lastAccessed = 2\<rparr>)],
       maxSize = 2, defaultTTL = 1000, hits = 0, misses = 0\<rparr>)
   \<and> map fst (cache (set_item 10 11 ''c'' 3 None \<lparr>cache = [(''a'', \<lparr>val = (1::nat), timestamp = 1, ttl = 1000, accessCount = 0, lastAccessed = 5\<rparr>),
                (''b'', \<lparr>val = 2, timestamp = 2, ttl = 1000, accessCount = 0, lastAccessed = 2\<rparr>)],
       maxSize = 2, defaultTTL = 1000, hits = 0, misses = 0\<rparr>)) = [''a'', ''c'']"
  using set_item_full_evicts_lru [where m = "\<lparr>cache = [(''a'', \<lparr>val = (1::nat), timestamp = 1, ttl = 1000, accessCount = 0, lastAccessed = 5\<rparr>),
                (''b'', \<lparr>val = 2, timestamp = 2, ttl = 1000, accessCount = 0, lastAccessed = 2\<rparr>)],
       maxSize = 2, defaultTTL = 1000, hits = 0, misses = 0\<rparr>" and now_evict = 11 and now = 10 and key = "''c''"
      and v = 3 and ttl_arg = None]
  by (simp add: set_item_def evictLRU_def Let_def)

text \<open>
  C7. After \<open>set k v ttl\<close> with \<open>ttl > 0\<close>, a \<open>get k\<close> at the same clock reading, or
  at any reading \<open>now1\<close> no more than \<open>ttl\<close> later, returns \<open>v\<close>. A \<open>get k\<close> at a
  reading \<open>now2\<close> more than \<open>ttl\<close> after the \<open>set\<close> returns \<open>null\<close>, adds one to the
  miss counter (and nothing to the hit counter), removes the entry, and \<open>totalItems\<close> of
  \<open>getStats\<close> is one less than before. The keys of a Map are distinct.
\<close>

theorem set_then_get_round_trip:
  assumes "t > 0" and "distinct (map fst (cache m))"
    and "now1 - now \<le> t" and "now2 - now > t"
  shows "fst (get now k (set_item now now_evict k v (Some t) m)) = Some v
       \<and> fst (get now1 k (set_item now now_evict k v (Some t) m)) = Some v
       \<and> (case get now2 k (set_item now now_evict k v (Some t) m) of
             (r, m2) \<Rightarrow>
               r = None
             \<and> misses m2 = misses (set_item now now_evict k v (Some t) m) + 1
             \<and> hits m2 = hits (set_item now now_evict k v (Some t) m)
             \<and> map_of (cache m2) k = None
             \<and> Suc (totalItems (getStats jl m2))
                 = totalItems (getStats jl (set_item now now_evict k v (Some t) m)))"
proof -
  let ?m1 = "set_item now now_evict k v (Some t) m"
  let ?item = "\<lparr>val = v, timestamp = now, ttl = t, accessCount = 0, lastAccessed = now\<rparr>"
  have look: "map_of (cache ?m1) k = Some ?item"
    using assms(1) by (simp add: map_of_set_item)
  have dist: "distinct (map fst (cache ?m1))"
    using assms(2) by (rule distinct_set_item)
  have a: "fst (get now k ?m1) = Some v"
    using assms(1) by (simp add: get_def look)
  have b: "fst (get now1 k ?m1) = Some v"
    using assms(3) by (simp add: get_def look)
  have len: "Suc (length (AList.delete k (cache ?m1))) = length (cache ?m1)"
    using dist look by (rule length_delete_present)
  have c: "get now2 k ?m1 = (None, ?m1\<lparr>cache := AList.delete k (cache ?m1), misses := misses ?m1 + 1\<rparr>)"
    using assms(4) by (simp add: get_def look)
  show ?thesis
    using a b len by (simp add: c getStats_def Let_def delete_conv')
qed

theorem set_then_get_round_trip_witness:
  "(100::int) > 0 \<and> distinct (map fst (cache (new_cache 2 1000 :: nat cache_manager)))
   \<and> (50::int) - 0 \<le> 100 \<and> (101::int) - 0 > 100
   \<and> fst (get 50 ''k'' (set_item 0 0 ''k'' (5::nat) (Some 100) (new_cache 2 1000))) = Some 5
   \<and> fst (get 101 ''k'' (set_item 0 0 ''k'' (5::nat) (Some 100) (new_cache 2 1000))) = None
   \<and> totalItems (getStats (\<lambda>v. v)
         (snd (get 101 ''k'' (set_item 0 0 ''k'' (5::nat) (Some 100) (new_cache 2 1000))))) = 0"
  using set_then_get_round_trip [where t = 100 and m = "new_cache 2 1000 :: nat cache_manager"
      and ?now1.0 = 50 and now = 0 and ?now2.0 = 101 and k = "''k''" and now_evict = 0
      and v = 5 and jl = "\<lambda>v. v"]
  by (simp add: new_cache_def set_item_def get_def getStats_def Let_def)

text \<open>
  C9. \<open>getStats\<close> and \<open>getMostUsed\<close> read no clock and return no new cache state.
  An entry whose TTL has elapsed at time \<open>now\<close> and that is still stored is counted:
  \<open>totalItems\<close> is the number of stored entries, one more than without the entry;
  \<open>memoryUsage\<close> is larger by the entry's share than without it; and \<open>getMostUsed\<close>,
  with a limit that covers the cache, returns its key with its access count.
\<close>

theorem stats_count_expired_entries:
  assumes "map_of (cache m) k = Some item" and "now - timestamp item > ttl item"
    and "distinct (map fst (cache m))" and "int (length (cache m)) \<le> limit"
  shows "totalItems (getStats jl m) = length (cache m)
       \<and> totalItems (getStats jl m) = Suc (totalItems (getStats jl (snd (delete_key k m))))
       \<and> memoryUsage (getStats jl m)
           = memoryUsage (getStats jl (snd (delete_key k m)))
             + (length k * 2 + jl (val item) * 2 + 64)
       \<and> (k, accessCount item) \<in> set (getMostUsed (Some limit) m)"
proof -
  have len: "Suc (length (AList.delete k (cache m))) = length (cache m)"
    using assms(3) assms(1) by (rule length_delete_present)
  have mem: "sum_list (map (\<lambda>(key, item). length key * 2 + jl (val item) * 2 + 64) (cache m))
      = sum_list (map (\<lambda>(key, item). length key * 2 + jl (val item) * 2 + 64) (AList.delete k (cache m)))
        + (length k * 2 + jl (val item) * 2 + 64)"
    using assms(3) assms(1) by (rule sum_list_delete_present)
  have fold_eq: "\<And>xs. fold (\<lambda>(key, item) mem. mem + length key * 2 + jl (val item) * 2 + 64) xs 0
      = sum_list (map (\<lambda>(key, item). length key * 2 + jl (val item) * 2 + 64) xs)"
    using fold_memory [of "\<lambda>key item. length key * 2 + jl (val item) * 2 + 64" _ 0]
    by (simp add: add.assoc)
  have "(k, item) \<in> set (cache m)"
    using assms(1) by (rule map_of_SomeD)
  then have "(k, accessCount item) \<in> set (map (\<lambda>(key, item). (key, accessCount item)) (cache m))"
    by force
  then have used: "(k, accessCount item) \<in> set (getMostUsed (Some limit) m)"
    using assms(4) by (simp add: getMostUsed_def slice0_all)
  show ?thesis
    using len mem used by (simp add: getStats_def Let_def delete_key_def fold_eq)
qed

theorem stats_count_expired_entries_witness:
  "map_of (cache \<lparr>cache = [(''old'', \<lparr>val = (1::nat), timestamp = 0, ttl = 10, accessCount = 3,
                                      lastAccessed = 5\<rparr>)],
                   maxSize = 5, defaultTTL = 10, hits = 3, misses = 0\<rparr>) ''old''
      = Some \<lparr>val = 1, timestamp = 0, ttl = 10, accessCount = 3, lastAccessed = 5\<rparr>
   \<and> (1000::int) - 0 > 10
   \<and> totalItems (getStats (\<lambda>v. v)
         \<lparr>cache = [(''old'', \<lparr>val = (1::nat), timestamp = 0, ttl = 10, accessCount = 3,
                                lastAccessed = 5\<rparr>)],
           maxSize = 5, defaultTTL = 10, hits = 3, misses = 0\<rparr>) = 1
   \<and> memoryUsage (getStats (\<lambda>v. v)
         \<lparr>cache = [(''old'', \<lparr>val = (1::nat), timestamp = 0, ttl = 10, accessCount = 3,
                                lastAccessed = 5\<rparr>)],
           maxSize = 5, defaultTTL = 10, hits = 3, misses = 0\<rparr>) = 72
   \<and> getMostUsed (Some 10)
         \<lparr>cache = [(''old'', \<lparr>val = (1::nat), timestamp = 0, ttl = 10, accessCount = 3,
                                lastAccessed = 5\<rparr>)],
           maxSize = 5, defaultTTL = 10, hits = 3, misses = 0\<rparr> = [(''old'', 3)]"
  using stats_count_expired_entries [where
      m = "\<lparr>cache = [(''old'', \<lparr>val = (1::nat), timestamp = 0, ttl = 10, accessCount = 3,
                                 lastAccessed = 5\<rparr>)],
            maxSize = 5, defaultTTL = 10, hits = 3, misses = 0\<rparr>"
      and k = "''old''"
      and item = "\<lparr>val = 1, timestamp = 0, ttl = 10, accessCount = 3, lastAccessed = 5\<rparr>"
      and now = 1000 and limit = 10 and jl = "\<lambda>v. v"]
  by (simp add: getStats_def getMostUsed_def slice0_def delete_key_def)


section \<open>Properties of the monitor\<close>

text \<open>
  C1. The claim is that \<open>healthScore\<close> is the clamped value of the formula and lies in
  [0,100], also when the window holds no critical or no high error. On the code, with one
  fast successful operation and one high error in the window and no critical error,
  \<^verbatim>\<open>errors.errorsBySeverity.critical\<close> is \<^verbatim>\<open>undefined\<close>, the product with 10 is
  \<^verbatim>\<open>NaN\<close>, and \<^verbatim>\<open>Math.max(0, Math.min(100, NaN))\<close> is \<^verbatim>\<open>NaN\<close>; the formula of the
  claim gives 95. The same happens on the empty history.
\<close>

theorem healthScore_NaN_without_critical_error:
  "healthScore (generateReport 1000
      [\<lparr>m_timestamp = 0, m_operation = ''op'', m_duration = 100, m_success = True, m_error = None\<rparr>]
      [\<lparr>e_timestamp = 0, e_error = ''e'', e_context = ''c'', e_severity = High\<rparr>]) = NaN
   \<and> healthScore (generateReport 1000 [] []) = NaN"
  by (simp add: generateReport_def getPerformanceStats_def getErrorStats_def Let_def bump_def)


lemma fold_bump_count:
  "map_of (fold (\<lambda>e acc. bump (f e) acc) xs acc) k
     = (case map_of acc k of
          None \<Rightarrow> if filter (\<lambda>e. f e = k) xs = [] then None
                  else Some (length (filter (\<lambda>e. f e = k) xs))
        | Some c \<Rightarrow> Some (c + length (filter (\<lambda>e. f e = k) xs)))"
  by (induction xs arbitrary: acc) (auto simp: bump_def update_conv' split: option.splits)

lemma errorsBySeverity_count:
  "map_of (errorsBySeverity (getErrorStats now timeRange errs)) s
     = (if filter (\<lambda>e. e_severity e = s) (filter (\<lambda>e. e_timestamp e \<ge> now - timeRange) errs) = []
        then None
        else Some (length (filter (\<lambda>e. e_severity e = s)
                     (filter (\<lambda>e. e_timestamp e \<ge> now - timeRange) errs))))"
  by (simp add: getErrorStats_def Let_def fold_bump_count)

lemma severity_lookup:
  "map_of (errorsBySeverity (getErrorStats now (24 * 60 * 60 * 1000) errs)) s
     = (if severity_count now s errs = 0 then None else Some (severity_count now s errs))"
  unfolding severity_count_def by (simp only: errorsBySeverity_count length_0_conv)

lemma healthScore_unfold:
  "healthScore (generateReport now metrics errs)
     = math_max (Num 0) (math_min (Num 100)
         (num_sub
           (num_sub
             (num_sub
               (num_sub (Num 100)
                 (math_max (Num 0)
                   (Num ((95 - successRate (getPerformanceStats now (24 * 60 * 60 * 1000) metrics)) * 2))))
               (math_max (Num 0)
                 (Num ((averageResponseTime (getPerformanceStats now (24 * 60 * 60 * 1000) metrics) - 2000) / 100))))
             (num_mul (to_number (map_of (errorsBySeverity (getErrorStats now (24 * 60 * 60 * 1000) errs)) Critical))
                (Num 10)))
           (num_mul (to_number (map_of (errorsBySeverity (getErrorStats now (24 * 60 * 60 * 1000) errs)) High))
              (Num 5))))"
  by (simp only: generateReport_def Let_def report.simps)

text \<open>
  What \<open>generateReport\<close> computes in general: the health score is \<^verbatim>\<open>NaN\<close> exactly when
  the window holds no critical error or no high error, and otherwise the clamped value of
  the formula, here in the exact arithmetic of the model.
\<close>

theorem healthScore_characterisation:
  "healthScore (generateReport now metrics errs)
     = (if severity_count now Critical errs = 0 \<or> severity_count now High errs = 0 then NaN
        else Num (max 0 (min 100
               (100
                - max 0 ((95 - successRate (getPerformanceStats now (24 * 60 * 60 * 1000) metrics)) * 2)
                - max 0 ((averageResponseTime (getPerformanceStats now (24 * 60 * 60 * 1000) metrics) - 2000) / 100)
                - real (severity_count now Critical errs) * 10
                - real (severity_count now High errs) * 5))))"
proof -
  define sr where "sr = successRate (getPerformanceStats now (24 * 60 * 60 * 1000) metrics)"
  define av where "av = averageResponseTime (getPerformanceStats now (24 * 60 * 60 * 1000) metrics)"
  define c where "c = severity_count now Critical errs"
  define h where "h = severity_count now High errs"
  have "math_max (Num 0) (math_min (Num 100)
         (num_sub (num_sub (num_sub (num_sub (Num 100) (math_max (Num 0) (Num ((95 - sr) * 2))))
               (math_max (Num 0) (Num ((av - 2000) / 100))))
             (num_mul (to_number (if c = 0 then None else Some c)) (Num 10)))
           (num_mul (to_number (if h = 0 then None else Some h)) (Num 5))))
        = (if c = 0 \<or> h = 0 then NaN
           else Num (max 0 (min 100 (100 - max 0 ((95 - sr) * 2) - max 0 ((av - 2000) / 100)
                  - real c * 10 - real h * 5))))"
    by simp
  then show ?thesis
    unfolding sr_def av_def c_def h_def by (simp only: healthScore_unfold severity_lookup)
qed

section \<open>Properties of the retry manager\<close>

lemma execute_loop_always_fails:
  assumes fails: "\<And>w. \<exists>e. fst (operation w) = Inl e \<and> retryCondition cfg e"
    and n: "maxAttempts cfg = int n"
  shows "1 \<le> i \<Longrightarrow> i \<le> n \<Longrightarrow>
     \<exists>res w'. execute_loop pf operation cfg st i atts w = (Inr res, w')
        \<and> \<not> success res \<and> result res = None
        \<and> length (attempts res) + i = length atts + Suc n"
proof (induction "n - i" arbitrary: i atts w)
  case 0
  then have last: "i = n" by simp
  obtain e where e: "fst (operation w) = Inl e"
    using fails by blast
  then obtain w1 where op: "operation w = (Inl e, w1)"
    by (cases "operation w") auto
  show ?case
    by (subst execute_loop.simps) (simp add: n last op Let_def)
next
  case (Suc d)
  then have lt: "i < n" by simp
  obtain e where e: "fst (operation w) = Inl e" and c: "retryCondition cfg e"
    using fails by blast
  then obtain w1 where op: "operation w = (Inl e, w1)"
    by (cases "operation w") auto
  obtain dl w2 where cd: "calculateDelay pf i cfg w1 = (dl, w2)"
    by (cases "calculateDelay pf i cfg w1") auto
  have d: "d = n - Suc i" using Suc.hyps(2) by simp
  have ih: "\<exists>res w'. execute_loop pf operation cfg st (Suc i)
        (atts @ [\<lparr>attempt = i, attempt_timestamp = date_now pf w1, attempt_error = e, delay = dl\<rparr>])
        (sleep pf dl w2) = (Inr res, w')
        \<and> \<not> success res \<and> result res = None
        \<and> length (attempts res) + Suc i
            = length (atts @ [\<lparr>attempt = i, attempt_timestamp = date_now pf w1, attempt_error = e, delay = dl\<rparr>])
              + Suc n"
    using lt by (intro Suc.hyps(1) d) auto
  show ?case
    using ih lt
    by (subst execute_loop.simps) (simp add: n op c cd Let_def)
qed

lemma execute_loop_fails_then_succeeds:
  fixes calls :: "'w \<Rightarrow> nat"
  assumes tick: "\<And>w. calls (snd (operation w)) = Suc (calls w)"
    and slp: "\<And>d w. calls (sleep pf d w) = calls w"
    and rnd: "\<And>w. calls (snd (math_random pf w)) = calls w"
    and fails: "\<And>w. calls w < k \<Longrightarrow> \<exists>e. fst (operation w) = Inl e \<and> retryCondition cfg e"
    and succeeds: "\<And>w. calls w = k \<Longrightarrow> fst (operation w) = Inr r"
    and n: "maxAttempts cfg = int n" and kn: "k < n"
  shows "Suc (calls w) = i \<Longrightarrow> i \<le> Suc k \<Longrightarrow>
     \<exists>res w'. execute_loop pf operation cfg st i atts w = (Inr res, w')
        \<and> success res \<and> result res = Some r
        \<and> length (attempts res) + i = length atts + Suc k"
proof (induction "Suc k - i" arbitrary: i atts w)
  case 0
  then have ik: "calls w = k" by simp
  then have "fst (operation w) = Inr r" by (rule succeeds)
  then obtain w1 where op: "operation w = (Inr r, w1)"
    by (cases "operation w") auto
  have "int i \<le> maxAttempts cfg"
    using n kn 0 by simp
  then show ?case
    using 0 by (subst execute_loop.simps) (simp add: op)
next
  case (Suc d)
  then have lt: "calls w < k" by simp
  then obtain e where e: "fst (operation w) = Inl e" and c: "retryCondition cfg e"
    using fails by blast
  then obtain w1 where op: "operation w = (Inl e, w1)"
    by (cases "operation w") auto
  obtain dl w2 where cd: "calculateDelay pf i cfg w1 = (dl, w2)"
    by (cases "calculateDelay pf i cfg w1") auto
  have w1: "calls w1 = Suc (calls w)"
    using tick [of w] by (simp add: op)
  have "calls w2 = calls w1"
    using cd rnd [of w1] by (auto simp: calculateDelay_def Let_def split: if_splits prod.splits)
  then have cw: "Suc (calls (sleep pf dl w2)) = Suc i"
    using w1 Suc.prems(1) by (simp add: slp)
  have d: "d = Suc k - Suc i" using Suc.hyps(2) by simp
  have ih: "\<exists>res w'. execute_loop pf operation cfg st (Suc i)
        (atts @ [\<lparr>attempt = i, attempt_timestamp = date_now pf w1, attempt_error = e, delay = dl\<rparr>])
        (sleep pf dl w2) = (Inr res, w')
        \<and> success res \<and> result res = Some r
        \<and> length (attempts res) + Suc i
            = length (atts @ [\<lparr>attempt = i, attempt_timestamp = date_now pf w1, attempt_error = e, delay = dl\<rparr>])
              + Suc k"
    using lt Suc.prems by (intro Suc.hyps(1) d cw) auto
  have "int i < maxAttempts cfg"
    using n kn lt Suc.prems by simp
  then show ?case
    using ih lt Suc.prems
    by (subst execute_loop.simps) (simp add: op c cd Let_def)
qed

text \<open>
  C4. Let \<open>n \<ge> 1\<close> be \<open>maxAttempts\<close> of the merged configuration. An operation that
  fails in every state of the world with an error that satisfies the retry condition
  makes \<open>execute\<close> return a result with \<open>success = false\<close> and exactly \<open>n\<close> attempt
  records. An operation that fails so on its first \<open>k < n\<close> invocations and returns \<open>r\<close>
  on the next one makes \<open>execute\<close> return \<open>success = true\<close>, the result \<open>r\<close> and exactly
  \<open>k\<close> attempt records. The invocations are counted by \<open>calls\<close>, a counter in the world
  that the operation increments and the platform leaves alone. In both cases \<open>execute\<close>
  returns and does not throw.
\<close>

theorem execute_attempt_records:
  fixes calls :: "'w \<Rightarrow> nat"
  assumes "maxAttempts (merge_config (defaultConfig dflt) config) = int n" and "1 \<le> n"
    and "\<forall>w. \<exists>e. fst (failing w) = Inl e
              \<and> retryCondition (merge_config (defaultConfig dflt) config) e"
    and "k < n"
    and "\<forall>w. calls (snd (flaky w)) = Suc (calls w)"
    and "\<forall>d w. calls (sleep pf d w) = calls w"
    and "\<forall>w. calls (snd (math_random pf w)) = calls w"
    and "\<forall>w. calls w < k \<longrightarrow>
           (\<exists>e. fst (flaky w) = Inl e
              \<and> retryCondition (merge_config (defaultConfig dflt) config) e)"
    and "\<forall>w. calls w = k \<longrightarrow> fst (flaky w) = Inr r"
    and "calls w0 = 0"
  shows "(\<exists>res w'. execute pf dflt failing config w = (Inr res, w')
            \<and> \<not> success res \<and> length (attempts res) = n)
       \<and> (\<exists>res w'. execute pf dflt flaky config w0 = (Inr res, w')
            \<and> success res \<and> result res = Some r \<and> length (attempts res) = k)"
proof -
  let ?cfg = "merge_config (defaultConfig dflt) config"
  have a: "\<exists>res w'. execute_loop pf failing ?cfg (date_now pf w) 1 [] w = (Inr res, w')
        \<and> \<not> success res \<and> result res = None
        \<and> length (attempts res) + 1 = Suc n"
    using execute_loop_always_fails [where operation = failing and cfg = ?cfg and n = n
        and i = 1 and atts = "[]" and pf = pf and st = "date_now pf w" and w = w]
      assms(1,2,3)
    by auto
  have b: "\<exists>res w'. execute_loop pf flaky ?cfg (date_now pf w0) 1 [] w0 = (Inr res, w')
        \<and> success res \<and> result res = Some r
        \<and> length (attempts res) + 1 = Suc k"
    using execute_loop_fails_then_succeeds [where operation = flaky and cfg = ?cfg and n = n
        and k = k and calls = calls and r = r and i = 1 and atts = "[]" and pf = pf
        and st = "date_now pf w0" and w = w0]
      assms(1,4,5,6,7,8,9,10)
    by auto
  have a': "\<exists>res w'. execute pf dflt failing config w = (Inr res, w')
        \<and> \<not> success res \<and> length (attempts res) = n"
    using a unfolding execute_def Let_def by auto
  have b': "\<exists>res w'. execute pf dflt flaky config w0 = (Inr res, w')
        \<and> success res \<and> result res = Some r \<and> length (attempts res) = k"
    using b unfolding execute_def Let_def by auto
  show ?thesis
    using a' b' by (rule conjI)
qed

theorem execute_attempt_records_witness:
  "maxAttempts (merge_config (defaultConfig (\<lambda>e. e = (503::nat)))
        \<lparr>p_maxAttempts = Some 3, p_baseDelay = Some 100, p_maxDelay = None,
          p_backoffFactor = Some 2, p_jitter = Some False, p_retryCondition = None\<rparr>) = int 3
   \<and> (2::nat) < 3
   \<and> execute \<lparr>date_now = (\<lambda>w. int w), sleep = (\<lambda>d w. w), math_random = (\<lambda>w. (0, w))\<rparr>
         (\<lambda>e. e = (503::nat)) (\<lambda>w. (if w < 2 then Inl 503 else Inr ''ok'', Suc w))
         \<lparr>p_maxAttempts = Some 3, p_baseDelay = Some 100, p_maxDelay = None,
           p_backoffFactor = Some 2, p_jitter = Some False, p_retryCondition = None\<rparr> 0
       = (Inr \<lparr>success = True, result = Some ''ok'', error = None,
                attempts = [\<lparr>attempt = 1, attempt_timestamp = 1, attempt_error = 503, delay = 100\<rparr>,
                            \<lparr>attempt = 2, attempt_timestamp = 2, attempt_error = 503, delay = 200\<rparr>],
                totalTime = 3\<rparr>, 3)
   \<and> length (attempts (projr (fst (execute
         \<lparr>date_now = (\<lambda>w. int w), sleep = (\<lambda>d w. w), math_random = (\<lambda>w. (0, w))\<rparr>
         (\<lambda>e. e = (503::nat)) (\<lambda>w. (Inl 503 :: nat + string, Suc w))
         \<lparr>p_maxAttempts = Some 3, p_baseDelay = Some 100, p_maxDelay = None,
           p_backoffFactor = Some 2, p_jitter = Some False, p_retryCondition = None\<rparr> 0)))) = 3"
  using execute_attempt_records [where
      dflt = "\<lambda>e. e = (503::nat)"
      and config = "\<lparr>p_maxAttempts = Some 3, p_baseDelay = Some 100, p_maxDelay = None,
           p_backoffFactor = Some 2, p_jitter = Some False, p_retryCondition = None\<rparr>"
      and n = 3 and k = 2 and calls = "\<lambda>w. w"
      and failing = "\<lambda>w. (Inl 503 :: nat + string, Suc w)"
      and flaky = "\<lambda>w. (if w < 2 then Inl 503 else Inr ''ok'', Suc w)"
      and pf = "\<lparr>date_now = (\<lambda>w. int w), sleep = (\<lambda>d w. w), math_random = (\<lambda>w. (0, w))\<rparr>"
      and r = "''ok''" and ?w0.0 = 0 and w = 0]
  by (simp add: execute_def execute_loop.simps calculateDelay_def merge_config_def
      defaultConfig_def Let_def)

lemma failing_call_step:
  assumes wf: "phase_open cs K \<Longrightarrow> 5 \<le> failures_of cs K"
    and call: "retryWithCircuitBreaker pf dflt operation K config (cs, w) = (r, cs', w')"
    and f: "failed r"
  shows "cs' K \<noteq> None \<and> (phase_open cs' K \<longleftrightarrow> 5 \<le> failures_of cs' K) \<and> min 5 (Suc (failures_of cs K)) \<le> failures_of cs' K"
proof (cases "fst (isCircuitOpen (date_now pf w) K cs)")
  case True
  then have o: "phase_open cs K"
    by (auto simp: isCircuitOpen_def phase_open_def Let_def split: option.splits if_splits)
  have "cs' = cs"
    using call True
    by (auto simp: retryWithCircuitBreaker_def isCircuitOpen_def Let_def
        split: option.splits if_splits prod.splits)
  then show ?thesis
    using o wf by (auto simp: phase_open_def failures_of_def split: option.splits)
next
  case False
  obtain cs1 where ic: "isCircuitOpen (date_now pf w) K cs = (False, cs1)"
    using False by (cases "isCircuitOpen (date_now pf w) K cs") auto
  have n1: "\<not> phase_open cs1 K" and c1: "failures_of cs1 K = failures_of cs K"
    using ic by (auto simp: isCircuitOpen_def phase_open_def failures_of_def Let_def split: option.splits if_splits)
  obtain x w1 where ex: "execute pf dflt operation config w = (x, w1)"
    by (cases "execute pf dflt operation config w") auto
  have "cs' = recordFailure (date_now pf w1) K cs1"
    using call f ic ex
    by (auto simp: retryWithCircuitBreaker_def failed_def split: sum.splits if_splits)
  then show ?thesis
    using n1 c1
    by (auto simp: recordFailure_def phase_open_def failures_of_def Let_def split: option.splits)
qed

lemma failing_calls_count:
  assumes "phase_open cs K \<Longrightarrow> 5 \<le> failures_of cs K"
    and "list_all failed (fst (run_calls pf dflt K calls cs))"
  shows "(phase_open (snd (run_calls pf dflt K calls cs)) K \<longrightarrow> 5 \<le> failures_of (snd (run_calls pf dflt K calls cs)) K)
       \<and> min 5 (failures_of cs K + length calls) \<le> failures_of (snd (run_calls pf dflt K calls cs)) K
       \<and> (calls \<noteq> [] \<longrightarrow> snd (run_calls pf dflt K calls cs) K \<noteq> None
            \<and> (5 \<le> failures_of (snd (run_calls pf dflt K calls cs)) K \<longrightarrow> phase_open (snd (run_calls pf dflt K calls cs)) K))"
  using assms
proof (induction calls arbitrary: cs)
  case Nil
  then show ?case by simp
next
  case (Cons c calls)
  obtain operation config w where c: "c = (operation, config, w)"
    by (cases c) auto
  obtain r cs1 w1 where call: "retryWithCircuitBreaker pf dflt operation K config (cs, w) = (r, cs1, w1)"
    by (cases "retryWithCircuitBreaker pf dflt operation K config (cs, w)") auto
  obtain rs cs2 where rest: "run_calls pf dflt K calls cs1 = (rs, cs2)"
    by (cases "run_calls pf dflt K calls cs1") auto
  have all: "run_calls pf dflt K (c # calls) cs = (r # rs, cs2)"
    by (simp add: c call rest)
  have fr: "failed r" and frs: "list_all failed (fst (run_calls pf dflt K calls cs1))"
    using Cons.prems(2) by (simp_all add: all rest)
  have step: "cs1 K \<noteq> None \<and> (phase_open cs1 K \<longleftrightarrow> 5 \<le> failures_of cs1 K) \<and> min 5 (Suc (failures_of cs K)) \<le> failures_of cs1 K"
    using Cons.prems(1) call fr by (rule failing_call_step)
  have ih: "(phase_open cs2 K \<longrightarrow> 5 \<le> failures_of cs2 K)
       \<and> min 5 (failures_of cs1 K + length calls) \<le> failures_of cs2 K
       \<and> (calls \<noteq> [] \<longrightarrow> cs2 K \<noteq> None \<and> (5 \<le> failures_of cs2 K \<longrightarrow> phase_open cs2 K))"
    using Cons.IH [of cs1] step frs by (simp add: rest)
  have fin: "snd (run_calls pf dflt K (c # calls) cs) = cs2"
    by (simp add: all)
  show ?case
  proof (cases "calls = []")
    case True
    then have "cs2 = cs1" using rest by simp
    then show ?thesis
      unfolding fin using step True by simp
  next
    case False
    then show ?thesis
      unfolding fin using ih step by auto
  qed
qed

lemma blocked_call:
  assumes "cs K = Some c" and "state c = Open" and "date_now pf w - lastFailure c \<le> 60000"
  shows "retryWithCircuitBreaker pf dflt operation K config (cs, w)
           = (Returned (Rejected (CircuitBreakerOpen K)), cs, w)"
  using assms by (simp add: retryWithCircuitBreaker_def isCircuitOpen_def Let_def)

lemma probe_call:
  assumes "cs K = Some c" and "date_now pf w - lastFailure c > 60000"
  shows "fst (retryWithCircuitBreaker pf dflt operation K config (cs, w))
           = Returned (case fst (execute pf dflt operation config w) of
                         Inl err \<Rightarrow> Rejected err | Inr res \<Rightarrow> Fulfilled res)
       \<and> snd (snd (retryWithCircuitBreaker pf dflt operation K config (cs, w)))
           = snd (execute pf dflt operation config w)"
  using assms
  by (auto simp: retryWithCircuitBreaker_def isCircuitOpen_def Let_def
      split: prod.splits sum.splits)

lemma never_raised:
  "fst (retryWithCircuitBreaker pf dflt operation K config (cs, w)) \<noteq> Raised x"
  by (auto simp: retryWithCircuitBreaker_def split: prod.splits sum.splits bool.splits)

lemma failed_probe_reopens:
  assumes "cs K = Some c" and "state c = Open" and "5 \<le> failures c"
    and "date_now pf w - lastFailure c > 60000"
    and "retryWithCircuitBreaker pf dflt operation K config (cs, w) = (r, cs', w')"
    and "failed r"
  shows "\<exists>c'. cs' K = Some c' \<and> state c' = Open \<and> lastFailure c' = date_now pf w'
           \<and> failures c' = Suc (failures c)"
proof -
  have ic: "isCircuitOpen (date_now pf w) K cs = (False, cs(K \<mapsto> c\<lparr>state := HalfOpen\<rparr>))"
    using assms(1,2,4) by (simp add: isCircuitOpen_def Let_def)
  obtain x w1 where ex: "execute pf dflt operation config w = (x, w1)"
    by (cases "execute pf dflt operation config w") auto
  have "cs' = recordFailure (date_now pf w1) K (cs(K \<mapsto> c\<lparr>state := HalfOpen\<rparr>)) \<and> w' = w1"
    using assms(5,6) ic ex
    by (auto simp: retryWithCircuitBreaker_def failed_def split: sum.splits if_splits)
  then show ?thesis
    using assms(3) by (simp add: recordFailure_def Let_def)
qed

text \<open>
  The invariant of the circuit states: an open circuit has at least 5 failures. It holds
  of the empty map of a new manager, and every call of \<open>retryWithCircuitBreaker\<close>, on
  the same key or another, keeps it.
\<close>

theorem circuit_invariant_preserved:
  assumes "phase_open cs K \<longrightarrow> 5 \<le> failures_of cs K"
    and "retryWithCircuitBreaker pf dflt operation K' config (cs, w) = (r, cs', w')"
  shows "phase_open cs' K \<longrightarrow> 5 \<le> failures_of cs' K"
proof (cases "fst (isCircuitOpen (date_now pf w) K' cs)")
  case True
  have "cs' = cs"
    using assms(2) True
    by (auto simp: retryWithCircuitBreaker_def isCircuitOpen_def Let_def
        split: option.splits if_splits prod.splits)
  then show ?thesis
    using assms(1) by simp
next
  case False
  obtain cs1 where ic: "isCircuitOpen (date_now pf w) K' cs = (False, cs1)"
    using False by (cases "isCircuitOpen (date_now pf w) K' cs") auto
  have inv1: "phase_open cs1 K \<longrightarrow> 5 \<le> failures_of cs1 K"
    using ic assms(1)
    by (auto simp: isCircuitOpen_def phase_open_def failures_of_def Let_def
        split: option.splits if_splits)
  have n1: "K' = K \<longrightarrow> \<not> phase_open cs1 K"
    using ic
    by (auto simp: isCircuitOpen_def phase_open_def Let_def split: option.splits if_splits)
  obtain x w1 where ex: "execute pf dflt operation config w = (x, w1)"
    by (cases "execute pf dflt operation config w") auto
  have "cs' = recordFailure (date_now pf w1) K' cs1 \<or> cs' = recordSuccess K' cs1"
    using assms(2) ic ex
    by (auto simp: retryWithCircuitBreaker_def split: sum.splits if_splits)
  then show ?thesis
    using inv1 n1
    by (auto simp: recordFailure_def recordSuccess_def phase_open_def failures_of_def Let_def
        split: option.splits if_splits)
qed

theorem circuit_invariant_preserved_witness:
  "\<not> phase_open Map.empty ''api''
   \<and> failures_of (fst (snd (retryWithCircuitBreaker
        \<lparr>date_now = (\<lambda>w. w), sleep = (\<lambda>d w. w), math_random = (\<lambda>w. (0, w))\<rparr>
        (\<lambda>e :: unit. False) (\<lambda>w. (Inl (), w + 1) :: (unit + unit) \<times> int) ''api''
        \<lparr>p_maxAttempts = None, p_baseDelay = None, p_maxDelay = None,
          p_backoffFactor = None, p_jitter = None, p_retryCondition = None\<rparr>
        (Map.empty, 0)))) ''api'' = 1"
  using circuit_invariant_preserved [where cs = Map.empty and K = "''api''" and K' = "''api''"
      and pf = "\<lparr>date_now = (\<lambda>w. w), sleep = (\<lambda>d w. w), math_random = (\<lambda>w. (0, w))\<rparr>"
      and dflt = "\<lambda>e :: unit. False"
      and operation = "\<lambda>w. (Inl (), w + 1) :: (unit + unit) \<times> int"
      and config = "\<lparr>p_maxAttempts = None, p_baseDelay = None, p_maxDelay = None,
          p_backoffFactor = None, p_jitter = None, p_retryCondition = None\<rparr>" and w = 0]
  by (simp add: retryWithCircuitBreaker_def isCircuitOpen_def recordFailure_def recordSuccess_def
      execute_def execute_loop.simps merge_config_def defaultConfig_def failures_of_def
      phase_open_def Let_def)

text \<open>
  C3, as stated, fails in one word: the circuit-open error is not raised synchronously.
  \<open>retryWithCircuitBreaker\<close> is an \<^verbatim>\<open>async\<close> function, so the call on an open circuit
  returns a promise, rejected with the error. On a new manager, five failing calls on key
  \<open>api\<close> at times 0 to 40 open the circuit, and the call at time 50 completes as
  \<open>Returned (Rejected (CircuitBreakerOpen api))\<close>, not as \<open>Raised\<close>; the world it returns
  is the world it was given.
\<close>

theorem circuit_open_error_is_a_rejected_promise:
  "list_all failed (fst (run_calls \<lparr>date_now = (\<lambda>w. w), sleep = (\<lambda>d w. w), math_random = (\<lambda>w. (0, w))\<rparr>
          (\<lambda>e :: unit. False) ''api''
          ([(\<lambda>w. (Inl (), w + 1), \<lparr>p_maxAttempts = None, p_baseDelay = None, p_maxDelay = None,
              p_backoffFactor = None, p_jitter = None, p_retryCondition = None\<rparr>, 0),
          (\<lambda>w. (Inl (), w + 1), \<lparr>p_maxAttempts = None, p_baseDelay = None, p_maxDelay = None,
              p_backoffFactor = None, p_jitter = None, p_retryCondition = None\<rparr>, 10),
          (\<lambda>w. (Inl (), w + 1), \<lparr>p_maxAttempts = None, p_baseDelay = None, p_maxDelay = None,
              p_backoffFactor = None, p_jitter = None, p_retryCondition = None\<rparr>, 20),
          (\<lambda>w. (Inl (), w + 1), \<lparr>p_maxAttempts = None, p_baseDelay = None, p_maxDelay = None,
              p_backoffFactor = None, p_jitter = None, p_retryCondition = None\<rparr>, 30),
          (\<lambda>w. (Inl (), w + 1), \<lparr>p_maxAttempts = None, p_baseDelay = None, p_maxDelay = None,
              p_backoffFactor = None, p_jitter = None, p_retryCondition = None\<rparr>, 40)] :: ((int \<Rightarrow> (unit + unit) \<times> int) \<times> unit partial_config \<times> int) list)
          Map.empty))
   \<and> map_option state (snd (run_calls \<lparr>date_now = (\<lambda>w. w), sleep = (\<lambda>d w. w), math_random = (\<lambda>w. (0, w))\<rparr>
          (\<lambda>e :: unit. False) ''api''
          ([(\<lambda>w. (Inl (), w + 1), \<lparr>p_maxAttempts = None, p_baseDelay = None, p_maxDelay = None,
              p_backoffFactor = None, p_jitter = None, p_retryCondition = None\<rparr>, 0),
          (\<lambda>w. (Inl (), w + 1), \<lparr>p_maxAttempts = None, p_baseDelay = None, p_maxDelay = None,
              p_backoffFactor = None, p_jitter = None, p_retryCondition = None\<rparr>, 10),
          (\<lambda>w. (Inl (), w + 1), \<lparr>p_maxAttempts = None, p_baseDelay = None, p_maxDelay = None,
              p_backoffFactor = None, p_jitter = None, p_retryCondition = None\<rparr>, 20),
          (\<lambda>w. (Inl (), w + 1), \<lparr>p_maxAttempts = None, p_baseDelay = None, p_maxDelay = None,
              p_backoffFactor = None, p_jitter = None, p_retryCondition = None\<rparr>, 30),
          (\<lambda>w. (Inl (), w + 1), \<lparr>p_maxAttempts = None, p_baseDelay = None, p_maxDelay = None,
              p_backoffFactor = None, p_jitter = None, p_retryCondition = None\<rparr>, 40)] :: ((int \<Rightarrow> (unit + unit) \<times> int) \<times> unit partial_config \<times> int) list)
          Map.empty) ''api'') = Some Open
   \<and> retryWithCircuitBreaker \<lparr>date_now = (\<lambda>w. w), sleep = (\<lambda>d w. w), math_random = (\<lambda>w. (0, w))\<rparr>
          (\<lambda>e :: unit. False) (\<lambda>w. (Inr (), w + 1) :: (unit + unit) \<times> int) ''api''
          \<lparr>p_maxAttempts = None, p_baseDelay = None, p_maxDelay = None,
              p_backoffFactor = None, p_jitter = None, p_retryCondition = None\<rparr>
          (snd (run_calls \<lparr>date_now = (\<lambda>w. w), sleep = (\<lambda>d w. w), math_random = (\<lambda>w. (0, w))\<rparr>
          (\<lambda>e :: unit. False) ''api''
          ([(\<lambda>w. (Inl (), w + 1), \<lparr>p_maxAttempts = None, p_baseDelay = None, p_maxDelay = None,
              p_backoffFactor = None, p_jitter = None, p_retryCondition = None\<rparr>, 0),
          (\<lambda>w. (Inl (), w + 1), \<lparr>p_maxAttempts = None, p_baseDelay = None, p_maxDelay = None,
              p_backoffFactor = None, p_jitter = None, p_retryCondition = None\<rparr>, 10),
          (\<lambda>w. (Inl (), w + 1), \<lparr>p_maxAttempts = None, p_baseDelay = None, p_maxDelay = None,
              p_backoffFactor = None, p_jitter = None, p_retryCondition = None\<rparr>, 20),
          (\<lambda>w. (Inl (), w + 1), \<lparr>p_maxAttempts = None, p_baseDelay = None, p_maxDelay = None,
              p_backoffFactor = None, p_jitter = None, p_retryCondition = None\<rparr>, 30),
          (\<lambda>w. (Inl (), w + 1), \<lparr>p_maxAttempts = None, p_baseDelay = None, p_maxDelay = None,
              p_backoffFactor = None, p_jitter = None, p_retryCondition = None\<rparr>, 40)] :: ((int \<Rightarrow> (unit + unit) \<times> int) \<times> unit partial_config \<times> int) list)
          Map.empty), 50)
       = (Returned (Rejected (CircuitBreakerOpen ''api'')),
          snd (run_calls \<lparr>date_now = (\<lambda>w. w), sleep = (\<lambda>d w. w), math_random = (\<lambda>w. (0, w))\<rparr>
          (\<lambda>e :: unit. False) ''api''
          ([(\<lambda>w. (Inl (), w + 1), \<lparr>p_maxAttempts = None, p_baseDelay = None, p_maxDelay = None,
              p_backoffFactor = None, p_jitter = None, p_retryCondition = None\<rparr>, 0),
          (\<lambda>w. (Inl (), w + 1), \<lparr>p_maxAttempts = None, p_baseDelay = None, p_maxDelay = None,
              p_backoffFactor = None, p_jitter = None, p_retryCondition = None\<rparr>, 10),
          (\<lambda>w. (Inl (), w + 1), \<lparr>p_maxAttempts = None, p_baseDelay = None, p_maxDelay = None,
              p_backoffFactor = None, p_jitter = None, p_retryCondition = None\<rparr>, 20),
          (\<lambda>w. (Inl (), w + 1), \<lparr>p_maxAttempts = None, p_baseDelay = None, p_maxDelay = None,
              p_backoffFactor = None, p_jitter = None, p_retryCondition = None\<rparr>, 30),
          (\<lambda>w. (Inl (), w + 1), \<lparr>p_maxAttempts = None, p_baseDelay = None, p_maxDelay = None,
              p_backoffFactor = None, p_jitter = None, p_retryCondition = None\<rparr>, 40)] :: ((int \<Rightarrow> (unit + unit) \<times> int) \<times> unit partial_config \<times> int) list)
          Map.empty), 50)
   \<and> fst (retryWithCircuitBreaker \<lparr>date_now = (\<lambda>w. w), sleep = (\<lambda>d w. w), math_random = (\<lambda>w. (0, w))\<rparr>
          (\<lambda>e :: unit. False) (\<lambda>w. (Inr (), w + 1) :: (unit + unit) \<times> int) ''api''
          \<lparr>p_maxAttempts = None, p_baseDelay = None, p_maxDelay = None,
              p_backoffFactor = None, p_jitter = None, p_retryCondition = None\<rparr>
          (snd (run_calls \<lparr>date_now = (\<lambda>w. w), sleep = (\<lambda>d w. w), math_random = (\<lambda>w. (0, w))\<rparr>
          (\<lambda>e :: unit. False) ''api''
          ([(\<lambda>w. (Inl (), w + 1), \<lparr>p_maxAttempts = None, p_baseDelay = None, p_maxDelay = None,
              p_backoffFactor = None, p_jitter = None, p_retryCondition = None\<rparr>, 0),
          (\<lambda>w. (Inl (), w + 1), \<lparr>p_maxAttempts = None, p_baseDelay = None, p_maxDelay = None,
              p_backoffFactor = None, p_jitter = None, p_retryCondition = None\<rparr>, 10),
          (\<lambda>w. (Inl (), w + 1), \<lparr>p_maxAttempts = None, p_baseDelay = None, p_maxDelay = None,
              p_backoffFactor = None, p_jitter = None, p_retryCondition = None\<rparr>, 20),
          (\<lambda>w. (Inl (), w + 1), \<lparr>p_maxAttempts = None, p_baseDelay = None, p_maxDelay = None,
              p_backoffFactor = None, p_jitter = None, p_retryCondition = None\<rparr>, 30),
          (\<lambda>w. (Inl (), w + 1), \<lparr>p_maxAttempts = None, p_baseDelay = None, p_maxDelay = None,
              p_backoffFactor = None, p_jitter = None, p_retryCondition = None\<rparr>, 40)] :: ((int \<Rightarrow> (unit + unit) \<times> int) \<times> unit partial_config \<times> int) list)
          Map.empty), 50))
       \<noteq> Raised (CircuitBreakerOpen ''api'')"
  by (simp add: retryWithCircuitBreaker_def isCircuitOpen_def recordFailure_def recordSuccess_def
      execute_def execute_loop.simps merge_config_def defaultConfig_def failed_def
      phase_open_def failures_of_def Let_def)

text \<open>
  C3, amended. Start from circuit states where the circuit of key \<open>K\<close>, if it is open, has
  at least 5 failures (true of a new manager and kept by every call). After 5 consecutive
  calls on \<open>K\<close> whose outcomes are failures, the circuit of \<open>K\<close> is open. A further call
  on \<open>K\<close> made no more than 60000 ms after the last failure returns a promise rejected
  with the circuit-open error: the world is returned as it was, so the operation was not
  invoked and no attempt was made, and the circuit states are unchanged. No call ever
  raises synchronously. A call on \<open>K\<close> made more than 60000 ms after the last recorded
  failure is let through whatever the phase of the circuit: its promise settles as
  \<open>execute\<close> does and its effect on the world is that of \<open>execute\<close>. When such a call
  on the opened circuit fails, the circuit is open again and its cooldown starts at that
  failure.
\<close>

theorem circuit_opens_after_five_failures:
  fixes pf :: "'w platform" and dflt :: "'e \<Rightarrow> bool"
    and calls :: "(('w \<Rightarrow> ('e + 'a) \<times> 'w) \<times> 'e partial_config \<times> 'w) list"
  assumes "phase_open cs K \<longrightarrow> 5 \<le> failures_of cs K"
    and "length calls = 5"
    and "list_all failed (fst (run_calls pf dflt K calls cs))"
  shows "\<exists>c. snd (run_calls pf dflt K calls cs) K = Some c \<and> state c = Open
          \<and> (\<forall>(operation :: 'w \<Rightarrow> ('e + 'b) \<times> 'w) config w.
                date_now pf w - lastFailure c \<le> 60000 \<longrightarrow>
                  retryWithCircuitBreaker pf dflt operation K config
                      (snd (run_calls pf dflt K calls cs), w)
                    = (Returned (Rejected (CircuitBreakerOpen K)),
                       snd (run_calls pf dflt K calls cs), w))
          \<and> (\<forall>(operation :: 'w \<Rightarrow> ('e + 'c) \<times> 'w) config w cs2 c2.
                cs2 K = Some c2 \<and> date_now pf w - lastFailure c2 > 60000 \<longrightarrow>
                  fst (retryWithCircuitBreaker pf dflt operation K config (cs2, w))
                    = Returned (case fst (execute pf dflt operation config w) of
                                  Inl err \<Rightarrow> Rejected err | Inr res \<Rightarrow> Fulfilled res)
                  \<and> snd (snd (retryWithCircuitBreaker pf dflt operation K config (cs2, w)))
                    = snd (execute pf dflt operation config w))
          \<and> (\<forall>(operation :: 'w \<Rightarrow> ('e + 'd) \<times> 'w) config w r cs3 w3.
                date_now pf w - lastFailure c > 60000
                \<and> retryWithCircuitBreaker pf dflt operation K config
                      (snd (run_calls pf dflt K calls cs), w) = (r, cs3, w3)
                \<and> failed r \<longrightarrow>
                  (\<exists>c3. cs3 K = Some c3 \<and> state c3 = Open
                     \<and> lastFailure c3 = date_now pf w3))
          \<and> (\<forall>(operation :: 'w \<Rightarrow> ('e + 'f) \<times> 'w) config w cs4 x.
                fst (retryWithCircuitBreaker pf dflt operation K config (cs4, w)) \<noteq> Raised x)"
proof -
  let ?cs' = "snd (run_calls pf dflt K calls cs)"
  have wf: "phase_open cs K \<Longrightarrow> 5 \<le> failures_of cs K"
    using assms(1) by simp
  have ne: "calls \<noteq> []"
    using assms(2) by auto
  have "min 5 (failures_of cs K + length calls) \<le> failures_of ?cs' K
       \<and> ?cs' K \<noteq> None \<and> (5 \<le> failures_of ?cs' K \<longrightarrow> phase_open ?cs' K)"
    using failing_calls_count [OF wf assms(3)] ne by simp
  then have "?cs' K \<noteq> None \<and> phase_open ?cs' K \<and> 5 \<le> failures_of ?cs' K"
    using assms(2) by simp
  then obtain c where c: "?cs' K = Some c" "state c = Open" and five: "5 \<le> failures c"
    by (auto simp: phase_open_def failures_of_def split: option.splits)
  show ?thesis
  proof (rule exI [where x = c], intro conjI allI impI)
    show "?cs' K = Some c" by (rule c(1))
    show "state c = Open" by (rule c(2))
  next
    fix operation :: "'w \<Rightarrow> ('e + 'b) \<times> 'w" and config w
    assume "date_now pf w - lastFailure c \<le> 60000"
    with c show "retryWithCircuitBreaker pf dflt operation K config (?cs', w)
                   = (Returned (Rejected (CircuitBreakerOpen K)), ?cs', w)"
      by (rule blocked_call)
  next
    fix operation :: "'w \<Rightarrow> ('e + 'c) \<times> 'w" and config w and cs2 :: circuit_states and c2
    assume a: "cs2 K = Some c2 \<and> date_now pf w - lastFailure c2 > 60000"
    show "fst (retryWithCircuitBreaker pf dflt operation K config (cs2, w))
            = Returned (case fst (execute pf dflt operation config w) of
                          Inl err \<Rightarrow> Rejected err | Inr res \<Rightarrow> Fulfilled res)"
      using a probe_call [of cs2 K c2 pf w dflt operation config] by simp
    show "snd (snd (retryWithCircuitBreaker pf dflt operation K config (cs2, w)))
            = snd (execute pf dflt operation config w)"
      using a probe_call [of cs2 K c2 pf w dflt operation config] by simp
  next
    fix operation :: "'w \<Rightarrow> ('e + 'd) \<times> 'w" and config w r cs3 w3
    assume a: "date_now pf w - lastFailure c > 60000
                \<and> retryWithCircuitBreaker pf dflt operation K config (?cs', w) = (r, cs3, w3)
                \<and> failed r"
    have "\<exists>c'. cs3 K = Some c' \<and> state c' = Open \<and> lastFailure c' = date_now pf w3
           \<and> failures c' = Suc (failures c)"
      using c five a by (intro failed_probe_reopens [where cs = ?cs' and w = w and r = r]) auto
    then show "\<exists>c3. cs3 K = Some c3 \<and> state c3 = Open \<and> lastFailure c3 = date_now pf w3"
      by blast
  next
    fix operation :: "'w \<Rightarrow> ('e + 'f) \<times> 'w" and config w and cs4 :: circuit_states and x
    show "fst (retryWithCircuitBreaker pf dflt operation K config (cs4, w)) \<noteq> Raised x"
      by (rule never_raised)
  qed
qed

theorem circuit_opens_after_five_failures_witness:
  "list_all failed (fst (run_calls \<lparr>date_now = (\<lambda>w. w), sleep = (\<lambda>d w. w), math_random = (\<lambda>w. (0, w))\<rparr>
          (\<lambda>e :: unit. False) ''api''
          ([(\<lambda>w. (Inl (), w + 1), \<lparr>p_maxAttempts = None, p_baseDelay = None, p_maxDelay = None,
              p_backoffFactor = None, p_jitter = None, p_retryCondition = None\<rparr>, 0),
          (\<lambda>w. (Inl (), w + 1), \<lparr>p_maxAttempts = None, p_baseDelay = None, p_maxDelay = None,
              p_backoffFactor = None, p_jitter = None, p_retryCondition = None\<rparr>, 10),
          (\<lambda>w. (Inl (), w + 1), \<lparr>p_maxAttempts = None, p_baseDelay = None, p_maxDelay = None,
              p_backoffFactor = None, p_jitter = None, p_retryCondition = None\<rparr>, 20),
          (\<lambda>w. (Inl (), w + 1), \<lparr>p_maxAttempts = None, p_baseDelay = None, p_maxDelay = None,
              p_backoffFactor = None, p_jitter = None, p_retryCondition = None\<rparr>, 30),
          (\<lambda>w. (Inl (), w + 1), \<lparr>p_maxAttempts = None, p_baseDelay = None, p_maxDelay = None,
              p_backoffFactor = None, p_jitter = None, p_retryCondition = None\<rparr>, 40)] :: ((int \<Rightarrow> (unit + unit) \<times> int) \<times> unit partial_config \<times> int) list)
          Map.empty))
   \<and> map_option state (snd (run_calls \<lparr>date_now = (\<lambda>w. w), sleep = (\<lambda>d w. w), math_random = (\<lambda>w. (0, w))\<rparr>
          (\<lambda>e :: unit. False) ''api''
          ([(\<lambda>w. (Inl (), w + 1), \<lparr>p_maxAttempts = None, p_baseDelay = None, p_maxDelay = None,
              p_backoffFactor = None, p_jitter = None, p_retryCondition = None\<rparr>, 0),
          (\<lambda>w. (Inl (), w + 1), \<lparr>p_maxAttempts = None, p_baseDelay = None, p_maxDelay = None,
              p_backoffFactor = None, p_jitter = None, p_retryCondition = None\<rparr>, 10),
          (\<lambda>w. (Inl (), w + 1), \<lparr>p_maxAttempts = None, p_baseDelay = None, p_maxDelay = None,
              p_backoffFactor = None, p_jitter = None, p_retryCondition = None\<rparr>, 20),
          (\<lambda>w. (Inl (), w + 1), \<lparr>p_maxAttempts = None, p_baseDelay = None, p_maxDelay = None,
              p_backoffFactor = None, p_jitter = None, p_retryCondition = None\<rparr>, 30),
          (\<lambda>w. (Inl (), w + 1), \<lparr>p_maxAttempts = None, p_baseDelay = None, p_maxDelay = None,
              p_backoffFactor = None, p_jitter = None, p_retryCondition = None\<rparr>, 40)] :: ((int \<Rightarrow> (unit + unit) \<times> int) \<times> unit partial_config \<times> int) list)
          Map.empty) ''api'') = Some Open
   \<and> map_option failures (snd (run_calls \<lparr>date_now = (\<lambda>w. w), sleep = (\<lambda>d w. w), math_random = (\<lambda>w. (0, w))\<rparr>
          (\<lambda>e :: unit. False) ''api''
          ([(\<lambda>w. (Inl (), w + 1), \<lparr>p_maxAttempts = None, p_baseDelay = None, p_maxDelay = None,
              p_backoffFactor = None, p_jitter = None, p_retryCondition = None\<rparr>, 0),
          (\<lambda>w. (Inl (), w + 1), \<lparr>p_maxAttempts = None, p_baseDelay = None, p_maxDelay = None,
              p_backoffFactor = None, p_jitter = None, p_retryCondition = None\<rparr>, 10),
          (\<lambda>w. (Inl (), w + 1), \<lparr>p_maxAttempts = None, p_baseDelay = None, p_maxDelay = None,
              p_backoffFactor = None, p_jitter = None, p_retryCondition = None\<rparr>, 20),
          (\<lambda>w. (Inl (), w + 1), \<lparr>p_maxAttempts = None, p_baseDelay = None, p_maxDelay = None,
              p_backoffFactor = None, p_jitter = None, p_retryCondition = None\<rparr>, 30),
          (\<lambda>w. (Inl (), w + 1), \<lparr>p_maxAttempts = None, p_baseDelay = None, p_maxDelay = None,
              p_backoffFactor = None, p_jitter = None, p_retryCondition = None\<rparr>, 40)] :: ((int \<Rightarrow> (unit + unit) \<times> int) \<times> unit partial_config \<times> int) list)
          Map.empty) ''api'') = Some 5"
  using circuit_opens_after_five_failures [where
      pf = "\<lparr>date_now = (\<lambda>w. w), sleep = (\<lambda>d w. w), math_random = (\<lambda>w. (0, w))\<rparr>"
      and dflt = "\<lambda>e :: unit. False" and K = "''api''" and cs = Map.empty
      and calls = "[(\<lambda>w. (Inl (), w + 1), \<lparr>p_maxAttempts = None, p_baseDelay = None, p_maxDelay = None,
              p_backoffFactor = None, p_jitter = None, p_retryCondition = None\<rparr>, 0),
          (\<lambda>w. (Inl (), w + 1), \<lparr>p_maxAttempts = None, p_baseDelay = None, p_maxDelay = None,
              p_backoffFactor = None, p_jitter = None, p_retryCondition = None\<rparr>, 10),
          (\<lambda>w. (Inl (), w + 1), \<lparr>p_maxAttempts = None, p_baseDelay = None, p_maxDelay = None,
              p_backoffFactor = None, p_jitter = None, p_retryCondition = None\<rparr>, 20),
          (\<lambda>w. (Inl (), w + 1), \<lparr>p_maxAttempts = None, p_baseDelay = None, p_maxDelay = None,
              p_backoffFactor = None, p_jitter = None, p_retryCondition = None\<rparr>, 30),
          (\<lambda>w. (Inl (), w + 1), \<lparr>p_maxAttempts = None, p_baseDelay = None, p_maxDelay = None,
              p_backoffFactor = None, p_jitter = None, p_retryCondition = None\<rparr>, 40)] :: ((int \<Rightarrow> (unit + unit) \<times> int) \<times> unit partial_config \<times> int) list"]
  by (simp add: retryWithCircuitBreaker_def isCircuitOpen_def recordFailure_def recordSuccess_def
      execute_def execute_loop.simps merge_config_def defaultConfig_def failed_def
      phase_open_def failures_of_def Let_def)

end
